theory Spec2Isabelle
  imports Main "HOL-Library.Sublist"
begin

section \<open>Constants (\<^verbatim>\<open>utils/constants.ts\<close>)\<close>

text \<open>
  The string constants of the SDK are abbreviations of their literals, so that two
  different keys are visibly different strings.
\<close>

abbreviation ACCESS_TOKEN :: string where "ACCESS_TOKEN \<equiv> ''access_token''"
abbreviation REFRESH_TOKEN :: string where "REFRESH_TOKEN \<equiv> ''refresh_token''"
abbreviation TOKEN_TYPE :: string where "TOKEN_TYPE \<equiv> ''token_type''"
abbreviation EXPIRES_AT :: string where "EXPIRES_AT \<equiv> ''expires_at''"
abbreviation USER :: string where "USER \<equiv> ''user''"
abbreviation USER_CACHED_AT :: string where "USER_CACHED_AT \<equiv> ''user_cached_at''"
abbreviation PKCE_VERIFIER :: string where "PKCE_VERIFIER \<equiv> ''pkce_verifier''"
abbreviation OAUTH_STATE :: string where "OAUTH_STATE \<equiv> ''oauth_state''"

abbreviation AUTHORIZE :: string where "AUTHORIZE \<equiv> ''/oauth/authorize/''"
abbreviation TOKEN :: string where "TOKEN \<equiv> ''/oauth/token/''"
abbreviation USERINFO :: string where "USERINFO \<equiv> ''/api/auth/userinfo/''"
abbreviation REGISTER :: string where "REGISTER \<equiv> ''/api/auth/register/''"
abbreviation PROFILE :: string where "PROFILE \<equiv> ''/api/auth/me/''"
abbreviation INTROSPECT :: string where "INTROSPECT \<equiv> ''/oauth/introspect/''"
abbreviation REVOKE :: string where "REVOKE \<equiv> ''/oauth/revoke_token/''"

abbreviation (input) AUTHORIZATION_CODE :: string where "AUTHORIZATION_CODE \<equiv> ''authorization_code''"
abbreviation (input) GRANT_REFRESH_TOKEN :: string where "GRANT_REFRESH_TOKEN \<equiv> ''refresh_token''"

definition REFRESH_COOLDOWN :: int where
  "REFRESH_COOLDOWN = 1000"

definition USER_CACHE_DURATION :: int where
  "USER_CACHE_DURATION = 5 * 60 * 1000"

section \<open>Data (\<^verbatim>\<open>types.ts\<close>, \<^verbatim>\<open>errors.ts\<close>)\<close>

record user =
  user_id :: string
  email :: string
  first_name :: string
  last_name :: string
  avatar_url :: "string option"
  email_verified :: bool
  created_at :: string
  updated_at :: "string option"

record TokenResponse =
  access_token :: string
  refresh_token :: "string option"
  token_type :: string
  expires_in :: int
  scope :: string

record AuthKitConfig =
  authKitUrl :: string
  clientId :: string
  clientSecret :: "string option"
  redirectUri :: string
  cfg_scopes :: "string list"
  pkce :: bool
  cfg_headers :: "string \<rightharpoonup> string"

record DeepLinkParams =
  dl_code :: "string option"
  dl_state :: "string option"
  dl_error :: "string option"
  dl_error_description :: "string option"

text \<open>
  The classes of \<^verbatim>\<open>errors.ts\<close>. An \<^verbatim>\<open>AuthKitError\<close> carries its class, its message
  and its optional machine-readable code (the opaque \<^verbatim>\<open>details\<close> are left out). Besides
  them the client meets the transport's own \<^verbatim>\<open>AxiosError\<close> (with the response, when one
  came, and whether the request had left) and every other JavaScript \<^verbatim>\<open>Error\<close>.
\<close>

datatype error_class =
  AuthKitError | AuthenticationError | NetworkError | TokenError | ValidationError
  | ConfigurationError | StorageError | BiometricError | DeepLinkError

record error_body =
  body_error :: "string option"
  body_error_description :: "string option"

record axios_error =
  ax_response :: "(nat \<times> error_body) option"
  ax_request :: bool
  ax_message :: string

datatype js_error =
  SdkError error_class string "string option"
  | AxiosError axios_error
  | OtherError string

fun error_class_of :: "js_error \<Rightarrow> error_class option" where
  "error_class_of (SdkError c m k) = Some c"
| "error_class_of (AxiosError a) = None"
| "error_class_of (OtherError m) = None"

datatype http_method = GET | POST | PATCH

record request =
  req_method :: http_method
  url :: "string option"
  headers :: "string \<rightharpoonup> string"
  form :: "(string \<times> string) list"
  retry :: bool

datatype 'a http_reply = Fulfilled 'a | Failed axios_error

datatype event =
  token_refreshed TokenResponse
  | token_expired js_error
  | auth_error js_error
  | user_logged_in user
  | network_error js_error

datatype auth_session_result = success string | cancel | dismiss

datatype 'a settled = Resolved 'a | Rejected js_error | Unsettled

section \<open>The client and its surroundings\<close>

text \<open>
  The state a call can change: the key-value store behind the storage adapter, the
  in-memory timestamp of the last refresh attempt, and the history of what the client did
  to the outside (events emitted, requests handed to the transport after the request
  interceptor) and of what it consumed from it (readings of the clock, draws of random
  bytes). The storage adapter is the in-memory store: a read returns what was last
  written, and no operation of the adapter fails. Debug logging changes none of this
  and is left out.
\<close>

record client =
  storage :: "string \<rightharpoonup> string"
  lastRefreshAttempt :: int
  emitted :: "event list"
  sent :: "request list"
  ticks :: nat
  draws :: nat

text \<open>
  The collaborators the client does not own, as functions of the history: the \<open>n\<close>-th
  reading of \<^verbatim>\<open>Date.now()\<close>, the reply of the server to a request given how many
  requests went out before it (typed by the endpoint, as the generic parameter of
  \<^verbatim>\<open>http.post\<close> and \<^verbatim>\<open>http.get\<close> declares it), the random bytes of
  \<^verbatim>\<open>Crypto.getRandomBytes\<close>, the digest of \<^verbatim>\<open>Crypto.digestStringAsync\<close>, the browser
  session, \<^verbatim>\<open>Linking.parse\<close>, the \<^verbatim>\<open>URL\<close> constructor, \<^verbatim>\<open>JSON\<close>, and the text
  the platform prints for an expiry that floating-point arithmetic does not compute
  exactly (see \<open>expiresAt_text\<close> below).
\<close>

datatype linking_result = ParseThrows | NoQueryParams | QueryParams "string \<rightharpoonup> string"

record env =
  clock :: "nat \<Rightarrow> int"
  token_endpoint :: "nat \<Rightarrow> request \<Rightarrow> TokenResponse http_reply"
  userinfo_endpoint :: "nat \<Rightarrow> request \<Rightarrow> user http_reply"
  getRandomBytes :: "nat \<Rightarrow> nat \<Rightarrow> nat"
  digestSHA256 :: "string \<Rightarrow> string"
  openAuthSessionAsync :: "string \<times> (string \<times> string) list \<Rightarrow> string \<Rightarrow> js_error + auth_session_result"
  Linking_parse :: "string \<Rightarrow> linking_result"
  URL_valid :: "string \<Rightarrow> bool"
  JSON_stringify :: "user \<Rightarrow> string"
  JSON_parse :: "string \<Rightarrow> user option"
  inexact_text :: "int \<Rightarrow> int \<Rightarrow> string"

definition truthy :: "string option \<Rightarrow> bool" where
  "truthy v = (case v of None \<Rightarrow> False | Some s \<Rightarrow> s \<noteq> [])"

definition getItem :: "client \<Rightarrow> string \<Rightarrow> string option" where
  "getItem st k = storage st k"

definition setItem :: "string \<Rightarrow> string \<Rightarrow> client \<Rightarrow> client" where
  "setItem k v st = st\<lparr>storage := (storage st)(k \<mapsto> v)\<rparr>"

definition removeItem :: "string \<Rightarrow> client \<Rightarrow> client" where
  "removeItem k st = st\<lparr>storage := (storage st)(k := None)\<rparr>"

definition emit :: "event \<Rightarrow> client \<Rightarrow> client" where
  "emit e st = st\<lparr>emitted := emitted st @ [e]\<rparr>"

definition dateNow :: "env \<Rightarrow> client \<Rightarrow> int \<times> client" where
  "dateNow en st = (clock en (ticks st), st\<lparr>ticks := Suc (ticks st)\<rparr>)"

section \<open>Numbers and strings of the platform\<close>

text \<open>
  A JavaScript number is a double. An integer of magnitude below \<open>2^53\<close> (a safe
  integer) is a double, a sum or product of safe integers whose exact result is a safe
  integer is computed exactly, and \<^verbatim>\<open>Number.prototype.toString\<close> prints a safe integer
  as its decimal digits. The model reads the numbers of the client as integers and
  \<open>toString\<close> is that printing. It is applied to HTTP status codes, to readings of
  \<^verbatim>\<open>Date.now()\<close> (time values, at most \<open>8.64 * 10^15\<close> in magnitude, so safe integers)
  and, through \<open>expiresAt_text\<close>, to an expiry that was computed exactly. Beyond the
  safe integers a double rounds, and from \<open>10^21\<close> on it prints in exponent notation:
  the model does not compute that text.

  \<^verbatim>\<open>parseInt(s, 10)\<close>: leading white space is skipped, one sign is read, then the longest
  run of decimal digits; without a digit the result is \<^verbatim>\<open>NaN\<close>, here \<open>None\<close>.
  Characters are bytes.
\<close>

definition safe_integer :: "int \<Rightarrow> bool" where
  "safe_integer i = (\<bar>i\<bar> < 2 ^ 53)"

definition digit_char :: "nat \<Rightarrow> char" where
  "digit_char d = char_of (48 + d)"

definition is_digit :: "char \<Rightarrow> bool" where
  "is_digit c = (48 \<le> (of_char c :: nat) \<and> (of_char c :: nat) \<le> 57)"

definition digit_val :: "char \<Rightarrow> nat" where
  "digit_val c = of_char c - 48"

fun decimal :: "nat \<Rightarrow> string" where
  "decimal n = (if n div 10 = 0 then [digit_char n]
                else decimal (n div 10) @ [digit_char (n mod 10)])"

declare decimal.simps [simp del]

definition toString :: "int \<Rightarrow> string" where
  "toString i = (if i < 0 then CHR ''-'' # decimal (nat (- i)) else decimal (nat i))"

definition is_space :: "char \<Rightarrow> bool" where
  "is_space c = (c \<in> set [CHR '' '', CHR 0x09, CHR 0x0A, CHR 0x0B, CHR 0x0C, CHR 0x0D])"

definition digits_value :: "string \<Rightarrow> nat" where
  "digits_value ds = foldl (\<lambda>a c. 10 * a + digit_val c) 0 ds"

definition parse_digits :: "string \<Rightarrow> nat option" where
  "parse_digits s =
     (let ds = takeWhile is_digit s in if ds = [] then None else Some (digits_value ds))"

definition parseInt :: "string \<Rightarrow> int option" where
  "parseInt s =
     (case dropWhile is_space s of
        [] \<Rightarrow> None
      | c # r \<Rightarrow>
          if c = CHR ''-'' then map_option (\<lambda>n. - int n) (parse_digits r)
          else if c = CHR ''+'' then map_option int (parse_digits r)
          else map_option int (parse_digits (c # r)))"

text \<open>The JavaScript \<^verbatim>\<open>a || b\<close> on an optional string: the empty string is falsy.\<close>

definition or_else :: "string option \<Rightarrow> string \<Rightarrow> string" where
  "or_else v d = (case v of None \<Rightarrow> d | Some s \<Rightarrow> if s = [] then d else s)"

section \<open>Error translation (\<^verbatim>\<open>AuthKitClient.handleError\<close>)\<close>

definition handleError :: "js_error \<Rightarrow> client \<Rightarrow> js_error \<times> client" where
  "handleError error st =
     (case error of
        AxiosError axiosError \<Rightarrow>
          (case ax_response axiosError of
             Some (status, data) \<Rightarrow>
               (let message = or_else (body_error_description data)
                                (or_else (body_error data) (ax_message axiosError))
                in if status = 401
                   then (SdkError AuthenticationError message (body_error data), st)
                   else (SdkError NetworkError message (Some (toString (int status))), st))
           | None \<Rightarrow>
               if ax_request axiosError
               then (SdkError NetworkError ''Network request failed'' None,
                     emit (network_error error) st)
               else (SdkError AuthKitError (ax_message axiosError) None, st))
      | SdkError c m k \<Rightarrow> (error, st)
      | OtherError m \<Rightarrow> (SdkError AuthKitError m None, st))"

text \<open>A \<^verbatim>\<open>catch (error) { throw this.handleError(error) }\<close>.\<close>

definition rethrow :: "js_error \<Rightarrow> client \<Rightarrow> 'a settled \<times> client" where
  "rethrow error st = (case handleError error st of (e, st') \<Rightarrow> (Rejected e, st'))"

section \<open>The transport and its interceptors (\<^verbatim>\<open>AuthKitClient.setupInterceptors\<close>)\<close>

definition protectedEndpoints :: "string list" where
  "protectedEndpoints = [USERINFO, PROFILE, INTROSPECT, REVOKE]"

definition str_includes :: "string \<Rightarrow> string \<Rightarrow> bool" where
  "str_includes s e = sublist e s"

definition is_protected :: "string option \<Rightarrow> bool" where
  "is_protected u =
     (case u of
        None \<Rightarrow> False
      | Some s \<Rightarrow> s \<noteq> [] \<and> list_ex (\<lambda>endpoint. str_includes s endpoint) protectedEndpoints)"

definition getAccessToken :: "client \<Rightarrow> string option" where
  "getAccessToken st = getItem st ACCESS_TOKEN"

definition getRefreshToken :: "client \<Rightarrow> string option" where
  "getRefreshToken st = getItem st REFRESH_TOKEN"

definition bearer :: "string option \<Rightarrow> request \<Rightarrow> request" where
  "bearer token config =
     (case token of
        None \<Rightarrow> config
      | Some t \<Rightarrow>
          if t = [] then config
          else config\<lparr>headers := (headers config)(''Authorization'' \<mapsto> ''Bearer '' @ t)\<rparr>)"

definition requestInterceptor :: "client \<Rightarrow> request \<Rightarrow> request" where
  "requestInterceptor st config =
     (if is_protected (url config) then bearer (getAccessToken st) config else config)"

text \<open>
  A request as \<^verbatim>\<open>axios\<close> builds it: the instance's default headers, the custom headers
  of the configuration over them, the headers of the call over both.
\<close>

definition mkRequest ::
  "AuthKitConfig \<Rightarrow> http_method \<Rightarrow> string \<Rightarrow> (string \<rightharpoonup> string) \<Rightarrow> (string \<times> string) list \<Rightarrow> request" where
  "mkRequest cfg m u hs body =
     \<lparr>req_method = m, url = Some u,
      headers = ([''Content-Type'' \<mapsto> ''application/json''] ++ cfg_headers cfg) ++ hs,
      form = body, retry = False\<rparr>"

abbreviation form_urlencoded :: "string \<rightharpoonup> string" where
  "form_urlencoded \<equiv> [''Content-Type'' \<mapsto> ''application/x-www-form-urlencoded'']"

text \<open>
  One trip through the transport: the request interceptor, then the server, whose reply
  may depend on how many requests went out before. The request that left is recorded.
\<close>

definition dispatch ::
  "(nat \<Rightarrow> request \<Rightarrow> 'a http_reply) \<Rightarrow> request \<Rightarrow> client \<Rightarrow> 'a http_reply \<times> request \<times> client" where
  "dispatch server config st =
     (let config' = requestInterceptor st config
      in (server (length (sent st)) config', config', st\<lparr>sent := sent st @ [config']\<rparr>))"

text \<open>
  A call of the \<^verbatim>\<open>axios\<close> instance with the response interceptor. On a 401 of a request
  not yet retried the interceptor marks it, runs \<open>refresh\<close>, attaches the stored
  token and calls the instance again with the marked request; the replay, being marked,
  can only end in the reply or in the translated failure.
\<close>

definition http ::
  "(client \<Rightarrow> TokenResponse settled \<times> client) \<Rightarrow> (nat \<Rightarrow> request \<Rightarrow> 'a http_reply) \<Rightarrow>
     request \<Rightarrow> client \<Rightarrow> 'a settled \<times> client" where
  "http refresh server config st =
     (case dispatch server config st of
        (Fulfilled d, config', st1) \<Rightarrow> (Resolved d, st1)
      | (Failed err, config', st1) \<Rightarrow>
          if map_option fst (ax_response err) = Some 401 \<and> \<not> retry config' then
            (let originalRequest = config'\<lparr>retry := True\<rparr>
             in case refresh st1 of
                  (Resolved tokens, st2) \<Rightarrow>
                    (case dispatch server (bearer (getAccessToken st2) originalRequest) st2 of
                       (Fulfilled d, config'', st3) \<Rightarrow> (Resolved d, st3)
                     | (Failed err', config'', st3) \<Rightarrow> rethrow (AxiosError err') st3)
                | (Rejected refreshError, st2) \<Rightarrow>
                    (Rejected refreshError, emit (token_expired refreshError) st2)
                | (Unsettled, st2) \<Rightarrow> (Unsettled, st2))
          else rethrow (AxiosError err) st1)"

section \<open>Token storage (\<^verbatim>\<open>storeTokens\<close>)\<close>

text \<open>
  \<^verbatim>\<open>(Date.now() + tokens.expires_in * 1000).toString()\<close>. The server chooses
  \<^verbatim>\<open>expires_in\<close>. When the reading of the clock, the product and the sum are safe
  integers the arithmetic is exact and the text is the decimal print of the sum.
  Otherwise the product or the sum is rounded and the text is what the platform prints
  for the rounded double (\<^verbatim>\<open>1.0000000017e+21\<close> for an \<^verbatim>\<open>expires_in\<close> of \<open>10^18\<close>
  at a clock reading of \<open>1.7 * 10^12\<close>): some string determined by the two operands,
  about which nothing is assumed.
\<close>

definition expiresAt_text :: "env \<Rightarrow> int \<Rightarrow> int \<Rightarrow> string" where
  "expiresAt_text en now secs =
     (if safe_integer now \<and> safe_integer (secs * 1000) \<and> safe_integer (now + secs * 1000)
      then toString (now + secs * 1000)
      else inexact_text en now secs)"

definition storeTokens :: "env \<Rightarrow> TokenResponse \<Rightarrow> client \<Rightarrow> client" where
  "storeTokens en tokens st =
     (let st1 = setItem ACCESS_TOKEN (access_token tokens) st;
          st2 = setItem TOKEN_TYPE (token_type tokens) st1;
          st3 = (if truthy (refresh_token tokens)
                 then setItem REFRESH_TOKEN (or_else (refresh_token tokens) []) st2
                 else st2)
      in case dateNow en st3 of
           (now, st4) \<Rightarrow> setItem EXPIRES_AT (expiresAt_text en now (expires_in tokens)) st4)"

section \<open>Refreshing the access token (\<^verbatim>\<open>refreshAccessToken\<close>)\<close>

text \<open>The \<^verbatim>\<open>catch\<close> block of \<^verbatim>\<open>refreshAccessToken\<close>.\<close>

definition refreshFailed :: "js_error \<Rightarrow> client \<Rightarrow> TokenResponse settled \<times> client" where
  "refreshFailed error st = rethrow error (emit (token_expired error) st)"

definition secret_field :: "AuthKitConfig \<Rightarrow> (string \<times> string) list" where
  "secret_field cfg =
     (if truthy (clientSecret cfg) then [(''client_secret'', or_else (clientSecret cfg) [])] else [])"

definition refresh_request :: "AuthKitConfig \<Rightarrow> string \<Rightarrow> request" where
  "refresh_request cfg refreshToken =
     mkRequest cfg POST TOKEN form_urlencoded
       ([(''grant_type'', GRANT_REFRESH_TOKEN), (''refresh_token'', refreshToken),
         (''client_id'', clientId cfg)] @ secret_field cfg)"

text \<open>
  The body of \<^verbatim>\<open>refreshAccessToken\<close>. Its POST goes through the response interceptor,
  which on a 401 calls \<^verbatim>\<open>refreshAccessToken\<close> again: \<open>nested\<close> is that inner call.
\<close>

definition refreshAccessToken_body ::
  "(client \<Rightarrow> TokenResponse settled \<times> client) \<Rightarrow> env \<Rightarrow> AuthKitConfig \<Rightarrow> client \<Rightarrow>
     TokenResponse settled \<times> client" where
  "refreshAccessToken_body nested en cfg st0 =
     (case dateNow en st0 of
        (now, st) \<Rightarrow>
          if now - lastRefreshAttempt st < REFRESH_COOLDOWN then
            refreshFailed
              (SdkError TokenError
                 ''Token refresh rate limit exceeded. Please wait before retrying.'' None) st
          else
            (let st1 = st\<lparr>lastRefreshAttempt := now\<rparr>
             in if \<not> truthy (getRefreshToken st1) then
                  refreshFailed (SdkError TokenError ''No refresh token available'' None) st1
                else
                  (case http nested (token_endpoint en)
                          (refresh_request cfg (or_else (getRefreshToken st1) [])) st1 of
                     (Resolved tokens, st2) \<Rightarrow>
                       (Resolved tokens, emit (token_refreshed tokens) (storeTokens en tokens st2))
                   | (Rejected error, st2) \<Rightarrow> refreshFailed error st2
                   | (Unsettled, st2) \<Rightarrow> (Unsettled, st2))))"

text \<open>
  The interceptor's inner refresh posts through the same interceptor, so the calls can
  nest without bound when every reply is a 401 and each round trip outlasts the cooldown.
  The first argument bounds the depth of that nesting: past it the call has not settled.
\<close>

primrec refreshAccessToken ::
  "nat \<Rightarrow> env \<Rightarrow> AuthKitConfig \<Rightarrow> client \<Rightarrow> TokenResponse settled \<times> client" where
  "refreshAccessToken 0 en cfg = refreshAccessToken_body (\<lambda>st. (Unsettled, st)) en cfg"
| "refreshAccessToken (Suc n) en cfg = refreshAccessToken_body (refreshAccessToken n en cfg) en cfg"

section \<open>The user profile and its cache (\<^verbatim>\<open>getCurrentUser\<close>)\<close>

definition userinfo_request :: "AuthKitConfig \<Rightarrow> request" where
  "userinfo_request cfg = mkRequest cfg GET USERINFO Map.empty []"

text \<open>The part of \<^verbatim>\<open>getCurrentUser\<close> after the cache check: fetch, then cache.\<close>

definition fetchUser :: "nat \<Rightarrow> env \<Rightarrow> AuthKitConfig \<Rightarrow> client \<Rightarrow> user settled \<times> client" where
  "fetchUser n en cfg st =
     (case http (refreshAccessToken n en cfg) (userinfo_endpoint en) (userinfo_request cfg) st of
        (Resolved u, st1) \<Rightarrow>
          (let st2 = setItem USER (JSON_stringify en u) st1
           in case dateNow en st2 of
                (now, st3) \<Rightarrow> (Resolved u, setItem USER_CACHED_AT (toString now) st3))
      | (Rejected error, st1) \<Rightarrow> rethrow error st1
      | (Unsettled, st1) \<Rightarrow> (Unsettled, st1))"

text \<open>
  \<^verbatim>\<open>JSON.parse\<close> throws a \<^verbatim>\<open>SyntaxError\<close> on a string that is no JSON text; the
  \<^verbatim>\<open>catch\<close> block translates it.
\<close>

definition getCurrentUser ::
  "nat \<Rightarrow> env \<Rightarrow> AuthKitConfig \<Rightarrow> bool \<Rightarrow> client \<Rightarrow> user settled \<times> client" where
  "getCurrentUser n en cfg forceRefresh st =
     (if forceRefresh then fetchUser n en cfg st
      else
        (let cachedUser = getItem st USER;
             cachedAt = getItem st USER_CACHED_AT
         in if truthy cachedUser \<and> truthy cachedAt then
              (case dateNow en st of
                 (now, st1) \<Rightarrow>
                   (case parseInt (or_else cachedAt []) of
                      None \<Rightarrow> fetchUser n en cfg st1
                    | Some t \<Rightarrow>
                        if now - t < USER_CACHE_DURATION then
                          (case JSON_parse en (or_else cachedUser []) of
                             Some u \<Rightarrow> (Resolved u, st1)
                           | None \<Rightarrow> rethrow (OtherError ''SyntaxError'') st1)
                        else fetchUser n en cfg st1))
            else fetchUser n en cfg st))"

section \<open>The callback (\<^verbatim>\<open>handleCallback\<close>)\<close>

definition verifier_field :: "AuthKitConfig \<Rightarrow> client \<Rightarrow> (string \<times> string) list" where
  "verifier_field cfg st =
     (if pkce cfg \<and> truthy (getItem st PKCE_VERIFIER)
      then [(''code_verifier'', or_else (getItem st PKCE_VERIFIER) [])] else [])"

definition exchange_request :: "AuthKitConfig \<Rightarrow> client \<Rightarrow> string \<Rightarrow> request" where
  "exchange_request cfg st code =
     mkRequest cfg POST TOKEN form_urlencoded
       ([(''grant_type'', AUTHORIZATION_CODE), (''code'', code), (''client_id'', clientId cfg),
         (''redirect_uri'', redirectUri cfg)] @ secret_field cfg @ verifier_field cfg st)"

definition handleCallback ::
  "nat \<Rightarrow> env \<Rightarrow> AuthKitConfig \<Rightarrow> string \<Rightarrow> string \<Rightarrow> client \<Rightarrow> TokenResponse settled \<times> client" where
  "handleCallback n en cfg code state st =
     (let savedState = getItem st OAUTH_STATE
      in if Some state \<noteq> savedState then
           rethrow (SdkError AuthenticationError
                      ''Invalid state parameter - CSRF check failed'' None) st
         else
           (case http (refreshAccessToken n en cfg) (token_endpoint en)
                   (exchange_request cfg st code) st of
              (Resolved tokens, st1) \<Rightarrow>
                (let st2 = storeTokens en tokens st1;
                     st3 = removeItem OAUTH_STATE st2;
                     st4 = removeItem PKCE_VERIFIER st3
                 in case getCurrentUser n en cfg False st4 of
                      (Resolved u, st5) \<Rightarrow> (Resolved tokens, emit (user_logged_in u) st5)
                    | (Rejected error, st5) \<Rightarrow> rethrow error st5
                    | (Unsettled, st5) \<Rightarrow> (Unsettled, st5))
            | (Rejected error, st1) \<Rightarrow> rethrow error st1
            | (Unsettled, st1) \<Rightarrow> (Unsettled, st1)))"

text \<open>\<^verbatim>\<open>exchangeAuthorizationCode\<close>, the exchange without the state check.\<close>

definition exchangeAuthorizationCode ::
  "nat \<Rightarrow> env \<Rightarrow> AuthKitConfig \<Rightarrow> string \<Rightarrow> string option \<Rightarrow> client \<Rightarrow>
     TokenResponse settled \<times> client" where
  "exchangeAuthorizationCode n en cfg code codeVerifier st =
     (case http (refreshAccessToken n en cfg) (token_endpoint en)
             (mkRequest cfg POST TOKEN form_urlencoded
                ([(''grant_type'', AUTHORIZATION_CODE), (''code'', code),
                  (''client_id'', clientId cfg), (''redirect_uri'', redirectUri cfg)] @
                 secret_field cfg @
                 (if truthy codeVerifier then [(''code_verifier'', or_else codeVerifier [])]
                  else verifier_field cfg st))) st of
        (Resolved tokens, st1) \<Rightarrow> (Resolved tokens, storeTokens en tokens st1)
      | (Rejected error, st1) \<Rightarrow> rethrow error st1
      | (Unsettled, st1) \<Rightarrow> (Unsettled, st1))"

section \<open>\<^verbatim>\<open>isAuthenticated\<close>\<close>

definition isAuthenticated :: "nat \<Rightarrow> env \<Rightarrow> AuthKitConfig \<Rightarrow> client \<Rightarrow> bool settled \<times> client" where
  "isAuthenticated n en cfg st =
     (if \<not> truthy (getAccessToken st) then (Resolved False, st)
      else
        (let expiresAt = getItem st EXPIRES_AT
         in if truthy expiresAt then
              (case dateNow en st of
                 (now, st1) \<Rightarrow>
                   (case parseInt (or_else expiresAt []) of
                      None \<Rightarrow> (Resolved True, st1)
                    | Some expiry \<Rightarrow>
                        if now \<ge> expiry then
                          (case refreshAccessToken n en cfg st1 of
                             (Resolved tokens, st2) \<Rightarrow> (Resolved True, st2)
                           | (Rejected error, st2) \<Rightarrow> (Resolved False, st2)
                           | (Unsettled, st2) \<Rightarrow> (Unsettled, st2))
                        else (Resolved True, st1)))
            else (Resolved True, st)))"

section \<open>\<^verbatim>\<open>getTokens\<close>\<close>

text \<open>
  \<^verbatim>\<open>getTokens\<close>; its \<^verbatim>\<open>expiresAt\<close> is a JavaScript number, \<open>None\<close> when \<^verbatim>\<open>parseInt\<close>
  gave \<^verbatim>\<open>NaN\<close>.
\<close>

record TokenMetadata =
  accessToken :: string
  refreshToken :: "string option"
  tokenType :: string
  expiresAt :: "int option"
  scopes :: "string list"

definition getTokens :: "AuthKitConfig \<Rightarrow> client \<Rightarrow> TokenMetadata option" where
  "getTokens cfg st =
     (if \<not> truthy (getAccessToken st) then None
      else Some \<lparr>accessToken = or_else (getAccessToken st) [],
                refreshToken = (if truthy (getRefreshToken st) then getRefreshToken st else None),
                tokenType = or_else (getItem st TOKEN_TYPE) ''Bearer'',
                expiresAt = (if truthy (getItem st EXPIRES_AT)
                                  then parseInt (or_else (getItem st EXPIRES_AT) [])
                                  else Some 0),
                scopes = cfg_scopes cfg\<rparr>)"

section \<open>PKCE (\<^verbatim>\<open>utils/pkce.ts\<close>)\<close>

datatype CodeChallengeMethod = S256 | plain

record PKCEParams =
  codeVerifier :: string
  codeChallenge :: string
  codeChallengeMethod :: CodeChallengeMethod

definition charset :: string where
  "charset = ''ABCDEFGHIJKLMNOPQRSTUVWXYZabcdefghijklmnopqrstuvwxyz0123456789-._~''"

definition generateCodeVerifier :: "env \<Rightarrow> nat \<Rightarrow> client \<Rightarrow> string \<times> client" where
  "generateCodeVerifier en len st =
     (map (\<lambda>i. charset ! (getRandomBytes en (draws st) i mod length charset)) [0..<len],
      st\<lparr>draws := Suc (draws st)\<rparr>)"

definition base64UrlEncode :: "string \<Rightarrow> string" where
  "base64UrlEncode str =
     filter (\<lambda>c. c \<noteq> CHR ''='')
       (map (\<lambda>c. if c = CHR ''/'' then CHR ''_'' else c)
          (map (\<lambda>c. if c = CHR ''+'' then CHR ''-'' else c) str))"

definition generateCodeChallenge :: "env \<Rightarrow> string \<Rightarrow> CodeChallengeMethod \<Rightarrow> string" where
  "generateCodeChallenge en verifier m =
     (case m of
        plain \<Rightarrow> verifier
      | S256 \<Rightarrow> base64UrlEncode (digestSHA256 en verifier))"

definition generatePKCEParams :: "env \<Rightarrow> CodeChallengeMethod \<Rightarrow> client \<Rightarrow> PKCEParams \<times> client" where
  "generatePKCEParams en m st =
     (case generateCodeVerifier en 128 st of
        (verifier, st') \<Rightarrow>
          (\<lparr>codeVerifier = verifier,
            codeChallenge = generateCodeChallenge en verifier m,
            codeChallengeMethod = m\<rparr>, st'))"

definition generateState :: "env \<Rightarrow> client \<Rightarrow> string \<times> client" where
  "generateState en st = generateCodeVerifier en 32 st"

section \<open>Deep links (\<^verbatim>\<open>utils/deepLink.ts\<close>)\<close>

definition parseDeepLinkUrl :: "env \<Rightarrow> string \<Rightarrow> js_error + DeepLinkParams" where
  "parseDeepLinkUrl en u =
     (case Linking_parse en u of
        ParseThrows \<Rightarrow> Inl (SdkError DeepLinkError ''Failed to parse deep link URL'' None)
      | NoQueryParams \<Rightarrow>
          Inl (SdkError DeepLinkError ''No query parameters found in deep link'' None)
      | QueryParams q \<Rightarrow>
          Inr \<lparr>dl_code = q ''code'', dl_state = q ''state'', dl_error = q ''error'',
               dl_error_description = q ''error_description''\<rparr>)"

text \<open>
  The authorization URL is kept as its base and the appended query parameters; the
  \<^verbatim>\<open>URL\<close> constructor throws a \<^verbatim>\<open>TypeError\<close> on a base it cannot parse.
\<close>

definition buildAuthorizationUrl ::
  "env \<Rightarrow> string \<Rightarrow> (string \<times> string) list \<Rightarrow> js_error + string \<times> (string \<times> string) list" where
  "buildAuthorizationUrl en baseUrl params =
     (if URL_valid en baseUrl then Inr (baseUrl, params) else Inl (OtherError ''Invalid URL''))"

section \<open>Login (\<^verbatim>\<open>login\<close>, \<^verbatim>\<open>cleanupOAuthState\<close>)\<close>

definition cleanupOAuthState :: "client \<Rightarrow> client" where
  "cleanupOAuthState st = removeItem PKCE_VERIFIER (removeItem OAUTH_STATE st)"

definition challenge_fields :: "PKCEParams option \<Rightarrow> (string \<times> string) list" where
  "challenge_fields pk =
     (case pk of
        None \<Rightarrow> []
      | Some p \<Rightarrow>
          if codeChallenge p \<noteq> []
          then [(''code_challenge'', codeChallenge p),
                (''code_challenge_method'',
                 case codeChallengeMethod p of S256 \<Rightarrow> ''S256'' | plain \<Rightarrow> ''plain'')]
          else [])"

text \<open>\<^verbatim>\<open>Array.prototype.join\<close>.\<close>

fun join :: "string \<Rightarrow> string list \<Rightarrow> string" where
  "join sep [] = []"
| "join sep [x] = x"
| "join sep (x # y # ys) = x @ sep @ join sep (y # ys)"

text \<open>What \<^verbatim>\<open>login\<close> does with the outcome of the browser session.\<close>

definition login_result ::
  "nat \<Rightarrow> env \<Rightarrow> AuthKitConfig \<Rightarrow> auth_session_result \<Rightarrow> client \<Rightarrow> unit settled \<times> client" where
  "login_result n en cfg result st =
     (case result of
        success u \<Rightarrow>
          (case parseDeepLinkUrl en u of
             Inl error \<Rightarrow> (Rejected error, st)
           | Inr p \<Rightarrow>
               if truthy (dl_error p) then
                 (Rejected (SdkError AuthenticationError
                              (''OAuth error: '' @ or_else (dl_error p) []) None),
                  cleanupOAuthState st)
               else if \<not> truthy (dl_code p) \<or> \<not> truthy (dl_state p) then
                 (Rejected (SdkError AuthenticationError
                              ''Missing code or state in callback'' None),
                  cleanupOAuthState st)
               else if dl_state p \<noteq> getItem st OAUTH_STATE then
                 (Rejected (SdkError AuthenticationError ''Invalid state parameter'' None),
                  cleanupOAuthState st)
               else
                 (case handleCallback n en cfg (or_else (dl_code p) [])
                         (or_else (dl_state p) []) st of
                    (Resolved tokens, st') \<Rightarrow> (Resolved (), st')
                  | (Rejected error, st') \<Rightarrow> (Rejected error, st')
                  | (Unsettled, st') \<Rightarrow> (Unsettled, st')))
      | cancel \<Rightarrow>
          (Rejected (SdkError AuthenticationError ''Login cancelled by user'' None),
           cleanupOAuthState st)
      | dismiss \<Rightarrow> (Resolved (), st))"

text \<open>The \<^verbatim>\<open>try\<close> block of \<^verbatim>\<open>login\<close>.\<close>

definition login_try :: "nat \<Rightarrow> env \<Rightarrow> AuthKitConfig \<Rightarrow> client \<Rightarrow> unit settled \<times> client" where
  "login_try n en cfg st0 =
     (case generateState en st0 of
        (state, st1) \<Rightarrow>
          (let st2 = setItem OAUTH_STATE state st1
           in case (if pkce cfg
                    then (case generatePKCEParams en S256 st2 of
                            (p, st3) \<Rightarrow> (Some p, setItem PKCE_VERIFIER (codeVerifier p) st3))
                    else (None, st2)) of
                (pk, st4) \<Rightarrow>
                  (case buildAuthorizationUrl en (authKitUrl cfg @ AUTHORIZE)
                          ([(''client_id'', clientId cfg), (''response_type'', ''code''),
                            (''redirect_uri'', redirectUri cfg),
                            (''scope'', join '' '' (cfg_scopes cfg)),
                            (''state'', state)] @ challenge_fields pk) of
                     Inl error \<Rightarrow> (Rejected error, st4)
                   | Inr authUrl \<Rightarrow>
                       (case openAuthSessionAsync en authUrl (redirectUri cfg) of
                          Inl error \<Rightarrow> (Rejected error, st4)
                        | Inr result \<Rightarrow> login_result n en cfg result st4))))"

definition login :: "nat \<Rightarrow> env \<Rightarrow> AuthKitConfig \<Rightarrow> client \<Rightarrow> unit settled \<times> client" where
  "login n en cfg st =
     (case login_try n en cfg st of
        (Rejected error, st1) \<Rightarrow> rethrow error (emit (auth_error error) (cleanupOAuthState st1))
      | (Resolved u, st1) \<Rightarrow> (Resolved u, st1)
      | (Unsettled, st1) \<Rightarrow> (Unsettled, st1))"

section \<open>Histories and a session to run the client in\<close>

text \<open>
  A call only ever appends to the events emitted and to the requests sent; \<open>grows st st'\<close>
  says that \<open>st'\<close> continues the history of \<open>st\<close>.
\<close>

definition grows :: "client \<Rightarrow> client \<Rightarrow> bool" where
  "grows st st' = (prefix (emitted st) (emitted st') \<and> prefix (sent st) (sent st'))"

definition demo_config :: AuthKitConfig where
  "demo_config =
     \<lparr>authKitUrl = ''https://auth.example.com'', clientId = ''mobile-app'',
      clientSecret = None, redirectUri = ''myapp://callback'',
      cfg_scopes = [''read'', ''write'', ''profile'', ''email''], pkce = True,
      cfg_headers = Map.empty\<rparr>"

definition demo_user :: user where
  "demo_user =
     \<lparr>user_id = ''u-1'', email = ''ada@example.com'', first_name = ''Ada'',
      last_name = ''Lovelace'', avatar_url = None, email_verified = True,
      created_at = ''2025-01-15T00:00:00Z'', updated_at = None\<rparr>"

definition demo_tokens :: TokenResponse where
  "demo_tokens =
     \<lparr>access_token = ''A'', refresh_token = None, token_type = ''Bearer'',
      expires_in = 3600, scope = ''read''\<rparr>"

text \<open>
  A server that answers every request, a clock that advances 400 ms between two readings
  and a user who cancels the browser session.
\<close>

definition demo_env :: env where
  "demo_env =
     \<lparr>clock = (\<lambda>k. 1700000000000 + 400 * int k),
      token_endpoint = (\<lambda>k r. Fulfilled demo_tokens),
      userinfo_endpoint = (\<lambda>k r. Fulfilled demo_user),
      getRandomBytes = (\<lambda>d i. 7 * d + i),
      digestSHA256 = (\<lambda>s. ''47DEQpj8HBSa+/TImW+5JCeuQeRkm5NMpJWZG3hSuFU=''),
      openAuthSessionAsync = (\<lambda>u r. Inr cancel),
      Linking_parse = (\<lambda>u. NoQueryParams),
      URL_valid = (\<lambda>u. True),
      JSON_stringify = (\<lambda>u. ''{\"id\":\"'' @ user_id u @ ''\"}''),
      JSON_parse = (\<lambda>s. if s = ''{\"id\":\"u-1\"}'' then Some demo_user else None),
      inexact_text = (\<lambda>now secs. ''1e+21'')\<rparr>"

text \<open>A client in the middle of a login: a pending transaction, no tokens yet.\<close>

definition pending_client :: client where
  "pending_client =
     \<lparr>storage = [OAUTH_STATE \<mapsto> ''st-4711'', PKCE_VERIFIER \<mapsto> ''verifier-0815''],
      lastRefreshAttempt = 0, emitted = [], sent = [], ticks = 0, draws = 0\<rparr>"

text \<open>A client that tried a refresh 400 ms before the clock's first reading.\<close>

definition hasty_client :: client where
  "hasty_client =
     \<lparr>storage = [ACCESS_TOKEN \<mapsto> ''A'', REFRESH_TOKEN \<mapsto> ''R''],
      lastRefreshAttempt = 1699999999600, emitted = [], sent = [], ticks = 0, draws = 0\<rparr>"

text \<open>The error of a refresh inside the cooldown.\<close>

definition rate_limited :: js_error where
  "rate_limited =
     SdkError TokenError ''Token refresh rate limit exceeded. Please wait before retrying.'' None"

text \<open>A token endpoint that refuses every request with a 400.\<close>

definition refusing_env :: env where
  "refusing_env =
     demo_env\<lparr>token_endpoint :=
       (\<lambda>k r. Failed \<lparr>ax_response = Some (400, \<lparr>body_error = Some ''invalid_grant'',
                                                body_error_description = None\<rparr>),
                        ax_request = True,
                        ax_message = ''Request failed with status code 400''\<rparr>)\<rparr>"

text \<open>A client whose access token expired ten seconds before the clock's first reading.\<close>

definition expired_client :: client where
  "expired_client =
     \<lparr>storage = [ACCESS_TOKEN \<mapsto> ''A'', EXPIRES_AT \<mapsto> toString 1699999990000],
      lastRefreshAttempt = 0, emitted = [], sent = [], ticks = 0, draws = 0\<rparr>"





text \<open>
  A token endpoint that answers the first request with a 401 and every later one with
  fresh tokens, and a client that still holds its tokens when the callback comes.
\<close>

definition unauthorized :: axios_error where
  "unauthorized =
     \<lparr>ax_response = Some (401, \<lparr>body_error = Some ''invalid_client'',
                                 body_error_description = None\<rparr>),
      ax_request = True, ax_message = ''Request failed with status code 401''\<rparr>"

definition flaky_env :: env where
  "flaky_env =
     demo_env\<lparr>token_endpoint :=
       (\<lambda>k r. if k = 0 then Failed unauthorized
               else Fulfilled (demo_tokens\<lparr>access_token := ''NEW''\<rparr>))\<rparr>"

definition returning_client :: client where
  "returning_client =
     \<lparr>storage = [OAUTH_STATE \<mapsto> ''st-4711'', ACCESS_TOKEN \<mapsto> ''A'', REFRESH_TOKEN \<mapsto> ''R''],
      lastRefreshAttempt = 0, emitted = [], sent = [], ticks = 0, draws = 0\<rparr>"

text \<open>The keys under which tokens and the cached profile are kept.\<close>

definition session_keys :: "string list" where
  "session_keys = [ACCESS_TOKEN, TOKEN_TYPE, REFRESH_TOKEN, EXPIRES_AT, USER, USER_CACHED_AT]"

section \<open>Properties of the platform functions\<close>

lemma is_digit_digit_char: "d < 10 \<Longrightarrow> is_digit (digit_char d)"
  by (simp add: is_digit_def digit_char_def)

lemma digit_val_digit_char: "d < 10 \<Longrightarrow> digit_val (digit_char d) = d"
  by (simp add: digit_val_def digit_char_def)

lemma decimal_digits: "c \<in> set (decimal n) \<Longrightarrow> is_digit c"
proof (induction n rule: decimal.induct)
  case (1 n)
  show ?case
  proof (cases "n div 10 = 0")
    case True
    then have "n < 10" by simp
    with "1.prems" True show ?thesis
      by (simp add: decimal.simps [of n] is_digit_digit_char)
  next
    case False
    with "1.prems" "1.IH" show ?thesis
      by (auto simp add: decimal.simps [of n] is_digit_digit_char)
  qed
qed

lemma decimal_not_Nil: "decimal n \<noteq> []"
  by (simp add: decimal.simps [of n])

lemma digits_value_snoc: "digits_value (ds @ [c]) = 10 * digits_value ds + digit_val c"
  by (simp add: digits_value_def)

lemma digits_value_decimal: "digits_value (decimal n) = n"
proof (induction n rule: decimal.induct)
  case (1 n)
  show ?case
  proof (cases "n div 10 = 0")
    case True
    then have "n < 10" by simp
    with True show ?thesis
      by (simp add: decimal.simps [of n] digits_value_def digit_val_digit_char)
  next
    case False
    with "1.IH" show ?thesis
      by (simp add: decimal.simps [of n] digits_value_snoc digit_val_digit_char)
  qed
qed

lemma parse_digits_decimal: "parse_digits (decimal n) = Some n"
proof -
  have tw: "takeWhile is_digit (decimal n) = decimal n"
    by (simp add: takeWhile_eq_all_conv decimal_digits)
  show ?thesis
    unfolding parse_digits_def tw by (simp add: decimal_not_Nil digits_value_decimal)
qed

lemma is_digit_plain: "is_digit c \<Longrightarrow> \<not> is_space c \<and> c \<noteq> CHR ''-'' \<and> c \<noteq> CHR ''+''"
  by (auto simp add: is_digit_def is_space_def)

text \<open>The decimal print of an integer, \<^verbatim>\<open>parseInt\<close> reads back.\<close>

lemma parseInt_toString: "parseInt (toString i) = Some i"
proof (cases "i < 0")
  case True
  have "\<not> is_space CHR ''-''" by (simp add: is_space_def)
  with True show ?thesis
    by (simp add: parseInt_def toString_def parse_digits_decimal)
next
  case False
  obtain c r where cr: "decimal (nat i) = c # r"
    using decimal_not_Nil [of "nat i"] by (cases "decimal (nat i)") auto
  then have "is_digit c" using decimal_digits [of c "nat i"] by simp
  then have plain: "\<not> is_space c" "c \<noteq> CHR ''-''" "c \<noteq> CHR ''+''"
    using is_digit_plain by blast+
  have "parse_digits (c # r) = Some (nat i)"
    using parse_digits_decimal [of "nat i"] cr by simp
  with False cr plain show ?thesis
    by (simp add: parseInt_def toString_def)
qed

lemma toString_not_Nil: "toString i \<noteq> []"
  by (simp add: toString_def decimal_not_Nil)

section \<open>Properties of error translation\<close>

lemma rethrow_sdk: "rethrow (SdkError c m k) st = (Rejected (SdkError c m k), st)"
  by (simp add: rethrow_def handleError_def)

lemma handleError_frame:
  "storage (snd (handleError e st)) = storage st \<and>
   lastRefreshAttempt (snd (handleError e st)) = lastRefreshAttempt st \<and>
   sent (snd (handleError e st)) = sent st \<and> ticks (snd (handleError e st)) = ticks st"
  by (auto simp add: handleError_def Let_def emit_def split: js_error.splits option.splits)

lemma rethrow_frame:
  assumes "rethrow e st = (r, st')"
  shows "storage st' = storage st \<and> lastRefreshAttempt st' = lastRefreshAttempt st \<and>
         sent st' = sent st \<and> ticks st' = ticks st \<and> (\<exists>e'. r = Rejected e')"
  using assms handleError_frame [of e st] by (auto simp add: rethrow_def split: prod.splits)

section \<open>Histories only grow\<close>

lemma grows_refl [simp]: "grows st st"
  by (simp add: grows_def)

lemma grows_trans: "grows a b \<Longrightarrow> grows b c \<Longrightarrow> grows a c"
  by (auto simp add: grows_def intro: prefix_order.trans)

lemma grows_setItem [simp]: "grows a (setItem k v b) = grows a b"
  by (simp add: grows_def setItem_def)

lemma grows_removeItem [simp]: "grows a (removeItem k b) = grows a b"
  by (simp add: grows_def removeItem_def)

lemma grows_ticks [simp]: "grows a (b\<lparr>ticks := t\<rparr>) = grows a b"
  by (simp add: grows_def)

lemma grows_lastRefreshAttempt [simp]: "grows a (b\<lparr>lastRefreshAttempt := t\<rparr>) = grows a b"
  by (simp add: grows_def)

lemma grows_emit: "grows a b \<Longrightarrow> grows a (emit e b)"
  by (auto simp add: grows_def emit_def intro: prefix_order.trans)

lemma grows_dateNow: "grows a b \<Longrightarrow> grows a (snd (dateNow en b))"
  by (simp add: grows_def dateNow_def)

lemma grows_storeTokens: "grows a b \<Longrightarrow> grows a (storeTokens en t b)"
  by (simp add: storeTokens_def Let_def dateNow_def split: prod.splits)

lemma grows_handleError: "grows a b \<Longrightarrow> grows a (snd (handleError e b))"
  by (auto simp add: handleError_def Let_def grows_emit split: js_error.splits option.splits)

lemma grows_rethrow: "grows a b \<Longrightarrow> grows a (snd (rethrow e b))"
  using grows_handleError [of a b e] by (auto simp add: rethrow_def split: prod.splits)

lemma grows_dispatch: "grows a b \<Longrightarrow> grows a (snd (snd (dispatch server r b)))"
  by (auto simp add: dispatch_def Let_def grows_def intro: prefix_order.trans)

lemma grows_rethrow_eq: "rethrow e b = (r, b') \<Longrightarrow> grows a b \<Longrightarrow> grows a b'"
  using grows_handleError [of a b e] by (auto simp add: rethrow_def split: prod.splits)

lemma grows_draws [simp]: "grows a (b\<lparr>draws := t\<rparr>) = grows a b"
  by (simp add: grows_def)

lemma grows_cleanup [simp]: "grows a (cleanupOAuthState b) = grows a b"
  by (simp add: cleanupOAuthState_def)

text \<open>
  After the first trip of a request, whatever the response interceptor does only adds to
  the history.
\<close>

lemma http_continues:
  assumes r: "\<And>s. grows s (snd (refresh s))"
  shows "grows (st\<lparr>sent := sent st @ [requestInterceptor st config]\<rparr>)
           (snd (http refresh server config st))"
proof -
  let ?c1 = "requestInterceptor st config"
  let ?st1 = "st\<lparr>sent := sent st @ [?c1]\<rparr>"
  let ?rep = "server (length (sent st)) ?c1"
  have d1: "dispatch server config st = (?rep, ?c1, ?st1)"
    by (simp add: dispatch_def Let_def)
  show ?thesis
  proof (cases ?rep)
    case (Fulfilled d)
    with d1 show ?thesis by (simp add: http_def)
  next
    case (Failed err)
    show ?thesis
    proof (cases "map_option fst (ax_response err) = Some 401 \<and> \<not> retry ?c1")
      case False
      with d1 Failed show ?thesis
        using grows_rethrow [of ?st1 ?st1 "AxiosError err"] by (auto simp add: http_def)
    next
      case True
      obtain out st2 where rf: "refresh ?st1 = (out, st2)" by (cases "refresh ?st1") auto
      have g2: "grows ?st1 st2" using r [of ?st1] rf by simp
      show ?thesis
      proof (cases out)
        case (Resolved tokens)
        let ?c2 = "bearer (getAccessToken st2) (?c1\<lparr>retry := True\<rparr>)"
        obtain rep2 c2 st3 where d2: "dispatch server ?c2 st2 = (rep2, c2, st3)"
          by (cases "dispatch server ?c2 st2") auto
        have g3: "grows ?st1 st3"
          using grows_dispatch [of ?st1 st2 server ?c2] d2 g2 by simp
        show ?thesis
        proof (cases rep2)
          case (Fulfilled d)
          with d1 Failed True rf Resolved d2 g3 show ?thesis by (simp add: http_def)
        next
          case (Failed err')
          with d1 \<open>?rep = Failed err\<close> True rf Resolved d2 g3 show ?thesis
            using grows_rethrow [of ?st1 st3 "AxiosError err'"] by (simp add: http_def)
        qed
      next
        case (Rejected e)
        with d1 Failed True rf g2 show ?thesis by (simp add: http_def grows_emit)
      next
        case Unsettled
        with d1 Failed True rf g2 show ?thesis by (simp add: http_def)
      qed
    qed
  qed
qed

lemma grows_http:
  assumes r: "\<And>s. grows s (snd (refresh s))"
  shows "grows st (snd (http refresh server config st))"
proof -
  have "grows st (st\<lparr>sent := sent st @ [requestInterceptor st config]\<rparr>)"
    by (simp add: grows_def)
  then show ?thesis using http_continues [OF r, of st config server] by (rule grows_trans)
qed

lemma grows_refreshFailed: "grows a b \<Longrightarrow> grows a (snd (refreshFailed e b))"
  by (simp add: refreshFailed_def grows_rethrow grows_emit)

lemma grows_refreshAccessToken_body:
  assumes r: "\<And>s. grows s (snd (nested s))"
  shows "grows st (snd (refreshAccessToken_body nested en cfg st))"
proof -
  let ?st = "st\<lparr>ticks := Suc (ticks st)\<rparr>"
  let ?st1 = "?st\<lparr>lastRefreshAttempt := clock en (ticks st)\<rparr>"
  have g0: "grows st ?st" and g1: "grows st ?st1" by simp_all
  let ?h = "http nested (token_endpoint en) (refresh_request cfg (or_else (getRefreshToken ?st1) [])) ?st1"
  have gh: "grows st (snd ?h)"
    using grows_http [of nested ?st1 "token_endpoint en"] r g1 by (blast intro: grows_trans)
  show ?thesis
    using g0 g1 gh
    by (cases ?h; cases "fst ?h")
       (auto simp add: refreshAccessToken_body_def dateNow_def Let_def grows_refreshFailed
          grows_emit grows_storeTokens)
qed

lemma grows_refreshAccessToken: "grows st (snd (refreshAccessToken n en cfg st))"
proof (induction n arbitrary: st)
  case 0
  show ?case by (simp add: grows_refreshAccessToken_body)
next
  case (Suc n)
  show ?case using Suc.IH by (simp add: grows_refreshAccessToken_body)
qed

lemma grows_fetchUser: "grows st (snd (fetchUser n en cfg st))"
proof -
  let ?h = "http (refreshAccessToken n en cfg) (userinfo_endpoint en) (userinfo_request cfg) st"
  have gh: "grows st (snd ?h)" by (simp add: grows_http grows_refreshAccessToken)
  show ?thesis
    using gh
    by (cases ?h; cases "fst ?h")
       (auto simp add: fetchUser_def Let_def dateNow_def grows_rethrow)
qed

lemma grows_getCurrentUser: "grows st (snd (getCurrentUser n en cfg force st))"
proof -
  let ?st1 = "st\<lparr>ticks := Suc (ticks st)\<rparr>"
  have g1: "grows st ?st1" by simp
  have f1: "grows st (snd (fetchUser n en cfg ?st1))"
    using grows_fetchUser [of ?st1] g1 by (blast intro: grows_trans)
  show ?thesis
    using g1 f1 grows_fetchUser [of st]
    by (auto simp add: getCurrentUser_def Let_def dateNow_def grows_rethrow
          split: option.splits)
qed

lemma grows_handleCallback: "grows st (snd (handleCallback n en cfg code state st))"
proof (cases "Some state \<noteq> getItem st OAUTH_STATE")
  case True
  then show ?thesis by (simp add: handleCallback_def grows_rethrow)
next
  case False
  let ?h = "http (refreshAccessToken n en cfg) (token_endpoint en) (exchange_request cfg st code) st"
  have gh: "grows st (snd ?h)" by (simp add: grows_http grows_refreshAccessToken)
  show ?thesis
  proof (cases ?h)
    case (Pair out st1)
    with gh have g1: "grows st st1" by simp
    show ?thesis
    proof (cases out)
      case (Resolved tokens)
      let ?st4 = "removeItem PKCE_VERIFIER (removeItem OAUTH_STATE (storeTokens en tokens st1))"
      have g4: "grows st ?st4" using g1 by (simp add: grows_storeTokens)
      have g5: "grows st (snd (getCurrentUser n en cfg False ?st4))"
        using g4 grows_getCurrentUser [of ?st4] by (blast intro: grows_trans)
      show ?thesis
        using False Pair Resolved g5
        by (cases "getCurrentUser n en cfg False ?st4"; cases "fst (getCurrentUser n en cfg False ?st4)")
           (auto simp add: handleCallback_def Let_def grows_emit grows_rethrow)
    next
      case (Rejected e)
      with False Pair g1 show ?thesis by (simp add: handleCallback_def grows_rethrow)
    next
      case Unsettled
      with False Pair g1 show ?thesis by (simp add: handleCallback_def)
    qed
  qed
qed

section \<open>The callback checks the CSRF state first\<close>

text \<open>
  Claim C1. Whenever the \<open>state\<close> handed to \<^verbatim>\<open>handleCallback\<close> is not the string stored
  under \<^verbatim>\<open>oauth_state\<close> (also when nothing is stored there), the call rejects with an
  \<^verbatim>\<open>AuthenticationError\<close> and leaves the client as it was: in particular the list of
  requests sent is unchanged, so nothing went to the token endpoint.
\<close>

theorem handleCallback_csrf_mismatch:
  assumes "getItem st OAUTH_STATE \<noteq> Some state"
  shows "handleCallback n en cfg code state st =
           (Rejected (SdkError AuthenticationError
                        ''Invalid state parameter - CSRF check failed'' None), st)"
  using assms by (auto simp add: handleCallback_def rethrow_sdk Let_def)

theorem handleCallback_csrf_mismatch_witness:
  "getItem pending_client OAUTH_STATE \<noteq> Some ''forged'' \<and>
   handleCallback 0 demo_env demo_config ''code-1'' ''forged'' pending_client =
     (Rejected (SdkError AuthenticationError
                  ''Invalid state parameter - CSRF check failed'' None), pending_client) \<and>
   getItem (pending_client\<lparr>storage := Map.empty\<rparr>) OAUTH_STATE \<noteq> Some ''forged'' \<and>
   sent (snd (handleCallback 0 demo_env demo_config ''code-1'' ''forged''
                (pending_client\<lparr>storage := Map.empty\<rparr>))) = []"
proof -
  have h: "getItem pending_client OAUTH_STATE \<noteq> Some ''forged''"
    by (simp add: getItem_def pending_client_def)
  have h': "getItem (pending_client\<lparr>storage := Map.empty\<rparr>) OAUTH_STATE \<noteq> Some ''forged''"
    by (simp add: getItem_def)
  show ?thesis
    using h h' handleCallback_csrf_mismatch [OF h, of 0 demo_env demo_config "''code-1''"]
      handleCallback_csrf_mismatch [OF h', of 0 demo_env demo_config "''code-1''"]
    by (simp add: pending_client_def)
qed

section \<open>The cooldown of the refresh\<close>

lemma refresh_gate_closed:
  assumes "clock en (ticks st) - lastRefreshAttempt st < REFRESH_COOLDOWN"
  shows "refreshAccessToken n en cfg st =
           (Rejected rate_limited,
            st\<lparr>ticks := Suc (ticks st), emitted := emitted st @ [token_expired rate_limited]\<rparr>)"
  using assms
  by (cases n)
     (simp_all add: refreshAccessToken_body_def dateNow_def refreshFailed_def rethrow_sdk
        emit_def rate_limited_def)

lemma refresh_no_token:
  assumes "\<not> clock en (ticks st) - lastRefreshAttempt st < REFRESH_COOLDOWN"
    and "\<not> truthy (getRefreshToken st)"
  shows "refreshAccessToken n en cfg st =
           (Rejected (SdkError TokenError ''No refresh token available'' None),
            st\<lparr>ticks := Suc (ticks st), lastRefreshAttempt := clock en (ticks st),
               emitted := emitted st @
                 [token_expired (SdkError TokenError ''No refresh token available'' None)]\<rparr>)"
  using assms
  by (cases n)
     (simp_all add: refreshAccessToken_body_def dateNow_def refreshFailed_def rethrow_sdk
        emit_def getRefreshToken_def getItem_def Let_def)

text \<open>A request the server answers at once settles with the reply.\<close>

lemma http_fulfilled:
  assumes "server (length (sent st)) (requestInterceptor st config) = Fulfilled d"
  shows "http refresh server config st =
           (Resolved d, st\<lparr>sent := sent st @ [requestInterceptor st config]\<rparr>)"
  using assms by (simp add: http_def dispatch_def Let_def)

lemma is_protected_TOKEN: "\<not> is_protected (Some TOKEN)"
  by (simp add: is_protected_def protectedEndpoints_def str_includes_def sublist_code)


lemma storeTokens_frame:
  "lastRefreshAttempt (storeTokens en t st) = lastRefreshAttempt st \<and>
   sent (storeTokens en t st) = sent st \<and> emitted (storeTokens en t st) = emitted st \<and>
   ticks (storeTokens en t st) = Suc (ticks st)"
  by (simp add: storeTokens_def Let_def dateNow_def setItem_def split: prod.splits)

lemma refresh_request_unprotected:
  "requestInterceptor st (refresh_request cfg rt) = refresh_request cfg rt"
  by (simp add: requestInterceptor_def refresh_request_def mkRequest_def is_protected_TOKEN)





section \<open>A rejected login leaves no pending transaction\<close>

lemma grows_login_result: "grows st (snd (login_result n en cfg result st))"
proof (cases result)
  case (success u)
  show ?thesis
  proof (cases "parseDeepLinkUrl en u")
    case (Inl e)
    with success show ?thesis by (simp add: login_result_def)
  next
    case (Inr p)
    let ?h = "handleCallback n en cfg (or_else (dl_code p) []) (or_else (dl_state p) []) st"
    have "grows st (snd ?h)" by (rule grows_handleCallback)
    with success Inr show ?thesis
      by (cases ?h; cases "fst ?h") (auto simp add: login_result_def)
  qed
next
  case cancel
  then show ?thesis by (simp add: login_result_def)
next
  case dismiss
  then show ?thesis by (simp add: login_result_def)
qed

lemma grows_login_try: "grows st (snd (login_try n en cfg st))"
proof -
  have r: "\<And>a result. grows st a \<Longrightarrow> grows st (snd (login_result n en cfg result a))"
    using grows_login_result grows_trans by blast
  show ?thesis
    by (auto simp add: login_try_def generateState_def generatePKCEParams_def
          generateCodeVerifier_def Let_def buildAuthorizationUrl_def r
          split: prod.splits sum.splits)
qed

lemma cleanup_removes:
  "getItem (cleanupOAuthState st) OAUTH_STATE = None \<and>
   getItem (cleanupOAuthState st) PKCE_VERIFIER = None"
  by (simp add: cleanupOAuthState_def removeItem_def getItem_def)

lemma login_rejected:
  assumes "login n en cfg st = (Rejected e, st')"
  shows "getItem st' OAUTH_STATE = None \<and> getItem st' PKCE_VERIFIER = None \<and>
         (\<exists>error before after. emitted st' = emitted st @ before @ auth_error error # after)"
proof -
  obtain out st1 where t: "login_try n en cfg st = (out, st1)"
    by (cases "login_try n en cfg st") auto
  with assms obtain error where out: "out = Rejected error"
    by (cases out) (auto simp add: login_def)
  let ?st2 = "emit (auth_error error) (cleanupOAuthState st1)"
  have r: "rethrow error ?st2 = (Rejected e :: unit settled, st')"
    using assms t out by (simp add: login_def)
  have "storage st' = storage (cleanupOAuthState st1)"
    using rethrow_frame [OF r] by (simp add: emit_def)
  then have keys: "getItem st' OAUTH_STATE = None \<and> getItem st' PKCE_VERIFIER = None"
    using cleanup_removes [of st1] by (simp add: getItem_def)
  have "grows st st1" using grows_login_try [of st n en cfg] t by simp
  then obtain before where b: "emitted st1 = emitted st @ before"
    by (auto simp add: grows_def prefix_def)
  have "grows ?st2 st'" using grows_rethrow_eq [OF r, of ?st2] by simp
  then obtain after where a: "emitted st' = emitted ?st2 @ after"
    by (auto simp add: grows_def prefix_def)
  have "emitted ?st2 = emitted st1 @ [auth_error error]"
    by (simp add: emit_def cleanupOAuthState_def removeItem_def)
  with a b have "emitted st' = emitted st @ before @ auth_error error # after" by simp
  with keys show ?thesis by blast
qed

lemma login_cancelled:
  assumes "URL_valid en (authKitUrl cfg @ AUTHORIZE)"
    and "\<And>u. openAuthSessionAsync en u (redirectUri cfg) = Inr cancel"
  shows "fst (login n en cfg st) =
           Rejected (SdkError AuthenticationError ''Login cancelled by user'' None)"
  using assms
  by (simp add: login_def login_try_def generateState_def generatePKCEParams_def
        generateCodeVerifier_def Let_def buildAuthorizationUrl_def login_result_def rethrow_sdk
        split: prod.splits)


text \<open>
  Claim C3. Whenever \<^verbatim>\<open>login\<close> rejects, whatever the reason, neither \<^verbatim>\<open>oauth_state\<close>
  nor \<^verbatim>\<open>pkce_verifier\<close> is in storage when the rejection reaches the caller, and the
  events emitted during the call contain an \<^verbatim>\<open>auth_error\<close>. When the browser session
  ends with \<^verbatim>\<open>cancel\<close> (the authorization URL being well formed), \<^verbatim>\<open>login\<close> rejects
  with the \<^verbatim>\<open>AuthenticationError\<close> "Login cancelled by user".
\<close>

theorem login_rejection_cleanup:
  "(login n en cfg st = (Rejected e, st') \<longrightarrow>
      getItem st' OAUTH_STATE = None \<and> getItem st' PKCE_VERIFIER = None \<and>
      (\<exists>error before after. emitted st' = emitted st @ before @ auth_error error # after)) \<and>
   (URL_valid en (authKitUrl cfg @ AUTHORIZE) \<and>
    (\<forall>u. openAuthSessionAsync en u (redirectUri cfg) = Inr cancel) \<longrightarrow>
      fst (login n en cfg st) =
        Rejected (SdkError AuthenticationError ''Login cancelled by user'' None))"
  using login_rejected [of n en cfg st e st'] login_cancelled [of en cfg n st] by blast

theorem login_rejection_cleanup_witness:
  "URL_valid demo_env (authKitUrl demo_config @ AUTHORIZE) \<and>
   (\<forall>u. openAuthSessionAsync demo_env u (redirectUri demo_config) = Inr cancel) \<and>
   fst (login 0 demo_env demo_config pending_client) =
     Rejected (SdkError AuthenticationError ''Login cancelled by user'' None) \<and>
   getItem (snd (login 0 demo_env demo_config pending_client)) OAUTH_STATE = None \<and>
   getItem (snd (login 0 demo_env demo_config pending_client)) PKCE_VERIFIER = None"
proof -
  let ?e = "SdkError AuthenticationError ''Login cancelled by user'' None"
  let ?st' = "snd (login 0 demo_env demo_config pending_client)"
  have h: "URL_valid demo_env (authKitUrl demo_config @ AUTHORIZE) \<and>
           (\<forall>u. openAuthSessionAsync demo_env u (redirectUri demo_config) = Inr cancel)"
    by (simp add: demo_env_def)
  have c: "fst (login 0 demo_env demo_config pending_client) = Rejected ?e"
    using h login_rejection_cleanup [of 0 demo_env demo_config pending_client ?e ?st'] by blast
  then have "login 0 demo_env demo_config pending_client = (Rejected ?e, ?st')"
    by (metis prod.collapse)
  then show ?thesis
    using h c login_rejection_cleanup [of 0 demo_env demo_config pending_client ?e ?st'] by blast
qed

section \<open>A failed callback on its own\<close>

lemma exchange_request_unprotected:
  "requestInterceptor st (exchange_request cfg st0 code) = exchange_request cfg st0 code"
  by (simp add: requestInterceptor_def exchange_request_def mkRequest_def is_protected_TOKEN)

text \<open>
  Claim C4 has every failed \<^verbatim>\<open>handleCallback\<close> remove both keys of the pending
  transaction before the rejection reaches the caller. Called on its own,
  \<^verbatim>\<open>handleCallback\<close> does not: its \<^verbatim>\<open>catch\<close> block only translates the error. With a
  pending transaction stored, a forged \<open>state\<close> ends in the \<^verbatim>\<open>AuthenticationError\<close>
  and a token endpoint that refuses the code ends in the \<^verbatim>\<open>NetworkError\<close>, and in both
  cases \<^verbatim>\<open>oauth_state\<close> and \<^verbatim>\<open>pkce_verifier\<close> are still in storage.
\<close>

theorem handleCallback_failure_keeps_transaction:
  "fst (handleCallback 0 demo_env demo_config ''code-1'' ''forged'' pending_client) =
     Rejected (SdkError AuthenticationError
                 ''Invalid state parameter - CSRF check failed'' None) \<and>
   getItem (snd (handleCallback 0 demo_env demo_config ''code-1'' ''forged'' pending_client))
     OAUTH_STATE = Some ''st-4711'' \<and>
   getItem (snd (handleCallback 0 demo_env demo_config ''code-1'' ''forged'' pending_client))
     PKCE_VERIFIER = Some ''verifier-0815'' \<and>
   fst (handleCallback 0 refusing_env demo_config ''code-1'' ''st-4711'' pending_client) =
     Rejected (SdkError NetworkError ''invalid_grant'' (Some (toString 400))) \<and>
   getItem (snd (handleCallback 0 refusing_env demo_config ''code-1'' ''st-4711'' pending_client))
     OAUTH_STATE = Some ''st-4711'' \<and>
   getItem (snd (handleCallback 0 refusing_env demo_config ''code-1'' ''st-4711'' pending_client))
     PKCE_VERIFIER = Some ''verifier-0815''"
proof -
  have a: "handleCallback 0 demo_env demo_config ''code-1'' ''forged'' pending_client =
             (Rejected (SdkError AuthenticationError
                 ''Invalid state parameter - CSRF check failed'' None), pending_client)"
    by (simp add: handleCallback_def getItem_def pending_client_def rethrow_sdk)
  have saved: "getItem pending_client OAUTH_STATE = Some ''st-4711''"
    and none_sent: "sent pending_client = []"
    by (simp_all add: getItem_def pending_client_def)
  have b: "handleCallback 0 refusing_env demo_config ''code-1'' ''st-4711'' pending_client =
             (Rejected (SdkError NetworkError ''invalid_grant'' (Some (toString 400))),
              pending_client\<lparr>sent := [exchange_request demo_config pending_client ''code-1'']\<rparr>)"
    by (simp add: handleCallback_def saved none_sent http_def dispatch_def
          exchange_request_unprotected rethrow_def handleError_def or_else_def Let_def
          refusing_env_def demo_env_def)
  show ?thesis
    unfolding a b by (simp add: getItem_def pending_client_def)
qed


section \<open>The request interceptor and its allow-list\<close>

lemma is_protected_iff:
  "is_protected u \<longleftrightarrow> (\<exists>s endpoint. u = Some s \<and> endpoint \<in> set protectedEndpoints \<and> sublist endpoint s)"
proof (cases u)
  case None
  then show ?thesis by (simp add: is_protected_def)
next
  case (Some s)
  have "[] \<notin> set protectedEndpoints" by (simp add: protectedEndpoints_def)
  then have "\<And>endpoint. endpoint \<in> set protectedEndpoints \<Longrightarrow> sublist endpoint s \<Longrightarrow> s \<noteq> []"
    by auto
  with Some show ?thesis
    by (auto simp add: is_protected_def str_includes_def list_ex_iff)
qed

lemma requestInterceptor_unprotected:
  "\<not> is_protected (url config) \<Longrightarrow> requestInterceptor st config = config"
  by (simp add: requestInterceptor_def)

lemma requestInterceptor_changes:
  assumes "headers (requestInterceptor st config) \<noteq> headers config"
  shows "is_protected (url config) \<and>
         (\<exists>t. getAccessToken st = Some t \<and> t \<noteq> [] \<and>
              requestInterceptor st config =
                config\<lparr>headers := (headers config)(''Authorization'' \<mapsto> ''Bearer '' @ t)\<rparr>)"
  using assms
  by (auto simp add: requestInterceptor_def bearer_def split: if_splits option.splits)

lemma token_requests_bare:
  assumes "cfg_headers cfg ''Authorization'' = None"
  shows "headers (requestInterceptor st (refresh_request cfg rt)) ''Authorization'' = None \<and>
         headers (requestInterceptor st (exchange_request cfg st0 code)) ''Authorization'' = None"
  using assms
  by (simp add: refresh_request_unprotected exchange_request_unprotected)
     (simp add: refresh_request_def exchange_request_def mkRequest_def map_add_def)

text \<open>
  The request interceptor by itself. The allow-list is the four endpoints userinfo,
  profile, introspection and revocation, and a URL is on it when it contains one of them
  as a substring. The interceptor changes the headers of a request only when its URL is
  on the list and a non-empty access token is stored, and then by setting
  \<^verbatim>\<open>Authorization\<close> to the bearer token. A request whose URL is not on the list leaves
  the interceptor as it entered, whatever the storage holds: the result is the same for
  any two clients, and a request that came without an \<^verbatim>\<open>Authorization\<close> header goes
  out without one. So do the two requests the client builds for the token endpoint,
  unless the configuration itself adds the header. This is the first trip of a request;
  the response interceptor sends some requests on a second one, treated in the section
  on the replay after a 401.
\<close>

lemma requestInterceptor_first_trip:
  "protectedEndpoints = [USERINFO, PROFILE, INTROSPECT, REVOKE] \<and>
   (headers (requestInterceptor st config) \<noteq> headers config \<longrightarrow>
      (\<exists>s endpoint. url config = Some s \<and> endpoint \<in> set protectedEndpoints \<and>
         sublist endpoint s) \<and>
      (\<exists>t. getAccessToken st = Some t \<and> t \<noteq> [] \<and>
         requestInterceptor st config =
           config\<lparr>headers := (headers config)(''Authorization'' \<mapsto> ''Bearer '' @ t)\<rparr>)) \<and>
   (\<not> is_protected (url config) \<longrightarrow>
      requestInterceptor st config = config \<and>
      requestInterceptor st config = requestInterceptor st' config \<and>
      (headers config ''Authorization'' = None \<longrightarrow>
         headers (requestInterceptor st config) ''Authorization'' = None)) \<and>
   (cfg_headers cfg ''Authorization'' = None \<longrightarrow>
      headers (requestInterceptor st (refresh_request cfg rt)) ''Authorization'' = None \<and>
      headers (requestInterceptor st (exchange_request cfg st0 code)) ''Authorization'' = None)"
proof -
  have a: "protectedEndpoints = [USERINFO, PROFILE, INTROSPECT, REVOKE]"
    by (simp add: protectedEndpoints_def)
  have b: "headers (requestInterceptor st config) \<noteq> headers config \<longrightarrow>
      (\<exists>s endpoint. url config = Some s \<and> endpoint \<in> set protectedEndpoints \<and>
         sublist endpoint s) \<and>
      (\<exists>t. getAccessToken st = Some t \<and> t \<noteq> [] \<and>
         requestInterceptor st config =
           config\<lparr>headers := (headers config)(''Authorization'' \<mapsto> ''Bearer '' @ t)\<rparr>)"
    using requestInterceptor_changes [of st config] is_protected_iff [of "url config"] by blast
  have c: "\<not> is_protected (url config) \<longrightarrow>
      requestInterceptor st config = config \<and>
      requestInterceptor st config = requestInterceptor st' config \<and>
      (headers config ''Authorization'' = None \<longrightarrow>
         headers (requestInterceptor st config) ''Authorization'' = None)"
    by (simp add: requestInterceptor_unprotected)
  from a b c token_requests_bare [of cfg st rt st0 code] show ?thesis by blast
qed

lemma requestInterceptor_first_trip_example:
  "\<not> is_protected (url (refresh_request demo_config ''R'')) \<and>
   requestInterceptor hasty_client (refresh_request demo_config ''R'') =
     refresh_request demo_config ''R'' \<and>
   headers (requestInterceptor hasty_client (refresh_request demo_config ''R'')) ''Authorization'' =
     None \<and>
   headers (requestInterceptor hasty_client (userinfo_request demo_config)) \<noteq>
     headers (userinfo_request demo_config) \<and>
   headers (requestInterceptor hasty_client (userinfo_request demo_config)) ''Authorization'' =
     Some ''Bearer A'' \<and>
   cfg_headers demo_config ''Authorization'' = None \<and>
   headers (requestInterceptor hasty_client (exchange_request demo_config pending_client ''code-1''))
     ''Authorization'' = None"
proof -
  have g: "cfg_headers demo_config ''Authorization'' = None" by (simp add: demo_config_def)
  have u: "\<not> is_protected (url (refresh_request demo_config ''R''))"
    by (simp add: refresh_request_def mkRequest_def is_protected_TOKEN)
  have n: "headers (refresh_request demo_config ''R'') ''Authorization'' = None"
    by (simp add: refresh_request_def mkRequest_def demo_config_def map_add_def)
  have tok: "getAccessToken hasty_client = Some ''A''"
    by (simp add: getAccessToken_def getItem_def hasty_client_def)
  have p: "is_protected (url (userinfo_request demo_config))"
    by (simp add: userinfo_request_def mkRequest_def is_protected_def protectedEndpoints_def
          str_includes_def)
  have a: "headers (requestInterceptor hasty_client (userinfo_request demo_config)) ''Authorization'' =
             Some ''Bearer A''"
    using p tok by (simp add: requestInterceptor_def bearer_def)
  have b: "headers (userinfo_request demo_config) ''Authorization'' = None"
    by (simp add: userinfo_request_def mkRequest_def demo_config_def map_add_def)
  have d: "headers (requestInterceptor hasty_client (userinfo_request demo_config)) \<noteq>
             headers (userinfo_request demo_config)"
    using a b by (metis option.distinct(1))
  show ?thesis
    using u n a d g
      requestInterceptor_first_trip [where st = hasty_client
        and config = "refresh_request demo_config ''R''" and st' = hasty_client
        and cfg = demo_config and ?st0.0 = pending_client and code = "''code-1''"]
      requestInterceptor_first_trip [where st = hasty_client
        and config = "userinfo_request demo_config" and st' = hasty_client
        and cfg = demo_config and ?st0.0 = pending_client and code = "''code-1''"]
    by simp
qed

section \<open>What \<^verbatim>\<open>storeTokens\<close> writes\<close>

lemma expiresAt_text_exact:
  assumes "safe_integer now" "safe_integer (secs * 1000)" "safe_integer (now + secs * 1000)"
  shows "expiresAt_text en now secs = toString (now + secs * 1000)"
  using assms by (simp add: expiresAt_text_def)

lemma storeTokens_storage:
  "storage (storeTokens en tokens st) =
     (if truthy (refresh_token tokens)
      then (storage st)(ACCESS_TOKEN \<mapsto> access_token tokens, TOKEN_TYPE \<mapsto> token_type tokens,
             REFRESH_TOKEN \<mapsto> or_else (refresh_token tokens) [],
             EXPIRES_AT \<mapsto> expiresAt_text en (clock en (ticks st)) (expires_in tokens))
      else (storage st)(ACCESS_TOKEN \<mapsto> access_token tokens, TOKEN_TYPE \<mapsto> token_type tokens,
             EXPIRES_AT \<mapsto> expiresAt_text en (clock en (ticks st)) (expires_in tokens)))"
  by (simp add: storeTokens_def Let_def dateNow_def setItem_def)

text \<open>
  Claim C10. When the token response has no \<^verbatim>\<open>refresh_token\<close>, \<^verbatim>\<open>storeTokens\<close> leaves
  the stored refresh token as it was, so \<^verbatim>\<open>getRefreshToken\<close> returns the old one (or
  still nothing), while the access token, the token type and the expiry are overwritten
  with the values of the response: the expiry with the text of the clock reading plus
  \<^verbatim>\<open>expires_in\<close> seconds, which is the decimal print of that sum of milliseconds
  whenever the arithmetic is exact.
\<close>

theorem storeTokens_keeps_refresh_token:
  assumes "refresh_token tokens = None"
  shows "getRefreshToken (storeTokens en tokens st) = getRefreshToken st \<and>
         getAccessToken (storeTokens en tokens st) = Some (access_token tokens) \<and>
         getItem (storeTokens en tokens st) TOKEN_TYPE = Some (token_type tokens) \<and>
         getItem (storeTokens en tokens st) EXPIRES_AT =
           Some (expiresAt_text en (clock en (ticks st)) (expires_in tokens)) \<and>
         (safe_integer (clock en (ticks st)) \<and> safe_integer (expires_in tokens * 1000) \<and>
          safe_integer (clock en (ticks st) + expires_in tokens * 1000) \<longrightarrow>
            getItem (storeTokens en tokens st) EXPIRES_AT =
              Some (toString (clock en (ticks st) + expires_in tokens * 1000)))"
  using assms
  by (simp add: getRefreshToken_def getAccessToken_def getItem_def storeTokens_storage truthy_def
        expiresAt_text_exact)

theorem storeTokens_keeps_refresh_token_witness:
  "refresh_token demo_tokens = None \<and>
   getRefreshToken hasty_client = Some ''R'' \<and>
   getRefreshToken (storeTokens demo_env demo_tokens hasty_client) = Some ''R'' \<and>
   getAccessToken (storeTokens demo_env demo_tokens hasty_client) = Some ''A'' \<and>
   getItem (storeTokens demo_env demo_tokens hasty_client) EXPIRES_AT =
     Some (toString 1700003600000)"
proof -
  have h: "refresh_token demo_tokens = None" by (simp add: demo_tokens_def)
  have r: "getRefreshToken hasty_client = Some ''R''"
    by (simp add: getRefreshToken_def getItem_def hasty_client_def)
  have a: "access_token demo_tokens = ''A''" by (simp add: demo_tokens_def)
  have e: "clock demo_env (ticks hasty_client) + expires_in demo_tokens * 1000 = 1700003600000"
    by (simp add: demo_env_def hasty_client_def demo_tokens_def)
  have s: "safe_integer (clock demo_env (ticks hasty_client))"
    "safe_integer (expires_in demo_tokens * 1000)"
    "safe_integer (clock demo_env (ticks hasty_client) + expires_in demo_tokens * 1000)"
    by (simp_all add: safe_integer_def demo_env_def hasty_client_def demo_tokens_def)
  note t = storeTokens_keeps_refresh_token [OF h, of demo_env hasty_client]
  from t s have x: "getItem (storeTokens demo_env demo_tokens hasty_client) EXPIRES_AT =
      Some (toString (clock demo_env (ticks hasty_client) + expires_in demo_tokens * 1000))"
    by blast
  from t have y:
    "getRefreshToken (storeTokens demo_env demo_tokens hasty_client) = getRefreshToken hasty_client"
    "getAccessToken (storeTokens demo_env demo_tokens hasty_client) = Some (access_token demo_tokens)"
    by blast+
  show ?thesis
    using h r x [unfolded e] y [unfolded a r] by simp
qed


section \<open>The token record in storage\<close>

text \<open>
  \<^verbatim>\<open>storeTokens\<close> writes the access token, the token type, the expiry and, when the
  response carries a non-empty one, the refresh token; it touches no other key, and it
  does not read the \<^verbatim>\<open>scope\<close> of the response.
\<close>

lemma storeTokens_writes:
  "(\<forall>k. k \<notin> {ACCESS_TOKEN, TOKEN_TYPE, REFRESH_TOKEN, EXPIRES_AT} \<longrightarrow>
        getItem (storeTokens en tokens st) k = getItem st k) \<and>
   getItem (storeTokens en tokens st) ACCESS_TOKEN = Some (access_token tokens) \<and>
   getItem (storeTokens en tokens st) TOKEN_TYPE = Some (token_type tokens) \<and>
   getItem (storeTokens en tokens st) EXPIRES_AT =
     Some (expiresAt_text en (clock en (ticks st)) (expires_in tokens)) \<and>
   getItem (storeTokens en tokens st) REFRESH_TOKEN =
     (if truthy (refresh_token tokens) then refresh_token tokens else getItem st REFRESH_TOKEN)"
  by (auto simp add: getItem_def storeTokens_storage truthy_def or_else_def split: option.splits)

lemma storeTokens_ignores_scope:
  "storeTokens en (tokens\<lparr>scope := s\<rparr>) st = storeTokens en tokens st"
  by (simp add: storeTokens_def Let_def)

text \<open>
  The \<^verbatim>\<open>scopes\<close> of \<^verbatim>\<open>getTokens\<close> are those of the configuration, whatever is stored.
\<close>

lemma getTokens_scopes:
  "getTokens cfg st = Some v \<Longrightarrow> scopes v = cfg_scopes cfg"
  by (auto simp add: getTokens_def split: if_splits)

text \<open>
  The other fields are read back from storage; the expiry is the instant that was
  computed when the arithmetic was exact.
\<close>

lemma getTokens_storeTokens:
  assumes "access_token tokens \<noteq> []"
    and "safe_integer (clock en (ticks st))" "safe_integer (expires_in tokens * 1000)"
    and "safe_integer (clock en (ticks st) + expires_in tokens * 1000)"
  shows "getTokens cfg (storeTokens en tokens st) =
           Some \<lparr>accessToken = access_token tokens,
                 refreshToken =
                   (if truthy (refresh_token tokens) then refresh_token tokens
                    else if truthy (getRefreshToken st) then getRefreshToken st else None),
                 tokenType = (if token_type tokens = [] then ''Bearer'' else token_type tokens),
                 expiresAt = Some (clock en (ticks st) + expires_in tokens * 1000),
                 scopes = cfg_scopes cfg\<rparr>"
  using assms
  by (auto simp add: getTokens_def getAccessToken_def getRefreshToken_def getItem_def
        storeTokens_storage truthy_def or_else_def toString_not_Nil parseInt_toString
        expiresAt_text_exact split: option.splits)

text \<open>
  A successful \<^verbatim>\<open>refreshAccessToken\<close> ends with \<^verbatim>\<open>storeTokens\<close> on its response and
  the \<^verbatim>\<open>token_refreshed\<close> event, a successful \<^verbatim>\<open>exchangeAuthorizationCode\<close> ends with
  \<^verbatim>\<open>storeTokens\<close> on its response, and a successful \<^verbatim>\<open>handleCallback\<close> has stored its
  response before it fetched the user.
\<close>

lemma refresh_resolved_stores:
  assumes "refreshAccessToken n en cfg st = (Resolved tokens, st')"
  shows "\<exists>st2. st' = emit (token_refreshed tokens) (storeTokens en tokens st2)"
proof -
  have body: "\<And>nested. refreshAccessToken_body nested en cfg st = (Resolved tokens, st') \<Longrightarrow>
                \<exists>st2. st' = emit (token_refreshed tokens) (storeTokens en tokens st2)"
    by (auto simp add: refreshAccessToken_body_def dateNow_def Let_def refreshFailed_def
          dest: rethrow_frame split: if_splits prod.splits settled.splits)
  show ?thesis using assms body by (cases n) auto
qed

lemma handleCallback_resolved_stores:
  assumes "handleCallback n en cfg code state st = (Resolved tokens, st')"
  shows "\<exists>st1 u st5.
           getCurrentUser n en cfg False
             (removeItem PKCE_VERIFIER (removeItem OAUTH_STATE (storeTokens en tokens st1))) =
               (Resolved u, st5) \<and>
           st' = emit (user_logged_in u) st5"
  using assms
  by (auto simp add: handleCallback_def Let_def dest: rethrow_frame
        split: if_splits prod.splits settled.splits)

lemma exchangeAuthorizationCode_resolved_stores:
  assumes "exchangeAuthorizationCode n en cfg code cv st = (Resolved tokens, st')"
  shows "\<exists>st1. st' = storeTokens en tokens st1"
  using assms
  by (auto simp add: exchangeAuthorizationCode_def dest: rethrow_frame
        split: prod.splits settled.splits)

text \<open>
  Claim C9. The claim has the scope set granted in the token response persisted and
  returned by \<^verbatim>\<open>getTokens\<close> as its \<^verbatim>\<open>scopes\<close>. The code does not do that. A login
  whose token response grants only \<^verbatim>\<open>read\<close>, on a client configured to request
  \<^verbatim>\<open>read write profile email\<close>, is stored, and the \<^verbatim>\<open>getTokens\<close> that follows reports
  the four requested scopes as the scopes of the token; a response granting \<^verbatim>\<open>email\<close>
  instead leaves the very same client behind. The interface \<^verbatim>\<open>TokenMetadata\<close> documents
  the field as the granted scopes, and the provider component builds it from the
  \<^verbatim>\<open>scope\<close> of the response.
\<close>

theorem getTokens_reports_configured_scopes:
  "scope demo_tokens = ''read'' \<and>
   cfg_scopes demo_config = [''read'', ''write'', ''profile'', ''email''] \<and>
   map_option scopes (getTokens demo_config (storeTokens demo_env demo_tokens pending_client)) =
     Some [''read'', ''write'', ''profile'', ''email''] \<and>
   storeTokens demo_env (demo_tokens\<lparr>scope := ''email''\<rparr>) pending_client =
     storeTokens demo_env demo_tokens pending_client"
proof -
  have a: "getAccessToken (storeTokens demo_env demo_tokens pending_client) = Some ''A''"
    by (simp add: getAccessToken_def getItem_def storeTokens_storage demo_tokens_def)
  have b: "scope demo_tokens = ''read''" by (simp add: demo_tokens_def)
  have c: "cfg_scopes demo_config = [''read'', ''write'', ''profile'', ''email'']"
    by (simp add: demo_config_def)
  have d: "map_option scopes
             (getTokens demo_config (storeTokens demo_env demo_tokens pending_client)) =
           Some (cfg_scopes demo_config)"
    by (simp add: getTokens_def a truthy_def)
  show ?thesis
    using b c d [unfolded c] by (simp add: storeTokens_ignores_scope)
qed


section \<open>\<^verbatim>\<open>isAuthenticated\<close> and the expiry\<close>

lemma refresh_without_token:
  assumes "\<not> truthy (getRefreshToken st)"
  shows "\<exists>e st'. refreshAccessToken n en cfg st = (Rejected e, st') \<and> sent st' = sent st"
proof (cases "clock en (ticks st) - lastRefreshAttempt st < REFRESH_COOLDOWN")
  case True
  then show ?thesis using refresh_gate_closed [of en st n cfg] by simp
next
  case False
  then show ?thesis using refresh_no_token [of en st n cfg] assms by simp
qed

lemma isAuthenticated_no_token:
  "\<not> truthy (getAccessToken st) \<Longrightarrow> isAuthenticated n en cfg st = (Resolved False, st)"
  by (simp add: isAuthenticated_def)

lemma isAuthenticated_no_expiry:
  "truthy (getAccessToken st) \<Longrightarrow> \<not> truthy (getItem st EXPIRES_AT) \<Longrightarrow>
     isAuthenticated n en cfg st = (Resolved True, st)"
  by (simp add: isAuthenticated_def)

lemma isAuthenticated_future:
  assumes "truthy (getAccessToken st)" "getItem st EXPIRES_AT = Some x" "x \<noteq> []"
    and "parseInt x = Some expiry" "clock en (ticks st) < expiry"
  shows "isAuthenticated n en cfg st = (Resolved True, st\<lparr>ticks := Suc (ticks st)\<rparr>)"
  using assms by (simp add: isAuthenticated_def truthy_def or_else_def dateNow_def)

lemma isAuthenticated_expired:
  assumes "truthy (getAccessToken st)" "getItem st EXPIRES_AT = Some x" "x \<noteq> []"
    and "parseInt x = Some expiry" "expiry \<le> clock en (ticks st)"
  shows "isAuthenticated n en cfg st =
           (case refreshAccessToken n en cfg (st\<lparr>ticks := Suc (ticks st)\<rparr>) of
              (Resolved tokens, st') \<Rightarrow> (Resolved True, st')
            | (Rejected error, st') \<Rightarrow> (Resolved False, st')
            | (Unsettled, st') \<Rightarrow> (Unsettled, st'))"
  using assms by (simp add: isAuthenticated_def truthy_def or_else_def dateNow_def)

lemma isAuthenticated_expired_no_refresh_token:
  assumes "truthy (getAccessToken st)" "getItem st EXPIRES_AT = Some x" "x \<noteq> []"
    and "parseInt x = Some expiry" "expiry \<le> clock en (ticks st)"
    and "\<not> truthy (getRefreshToken st)"
  shows "fst (isAuthenticated n en cfg st) = Resolved False \<and>
         sent (snd (isAuthenticated n en cfg st)) = sent st"
proof -
  let ?st1 = "st\<lparr>ticks := Suc (ticks st)\<rparr>"
  have "\<not> truthy (getRefreshToken ?st1)"
    using assms(6) by (simp add: getRefreshToken_def getItem_def)
  then obtain e st' where "refreshAccessToken n en cfg ?st1 = (Rejected e, st')" "sent st' = sent ?st1"
    using refresh_without_token [of ?st1 n en cfg] by blast
  then show ?thesis
    using isAuthenticated_expired [OF assms(1-5), of n cfg] by simp
qed

text \<open>
  Claim C6. A stored value counts as present when it is not the empty string. Without an
  access token \<^verbatim>\<open>isAuthenticated\<close> returns false and does nothing else. With an access
  token and a stored expiry that the clock has reached, it does what one call of
  \<^verbatim>\<open>refreshAccessToken\<close> does and returns true when that call resolves and false when
  it rejects, the error being dropped; with no refresh token stored that is false, for
  every bound on the nesting, and nothing is sent. With an access token and no expiry
  stored, or an expiry the clock has not reached, it returns true.
\<close>

theorem isAuthenticated_contract:
  "(\<not> truthy (getAccessToken st) \<longrightarrow> isAuthenticated n en cfg st = (Resolved False, st)) \<and>
   (truthy (getAccessToken st) \<and> getItem st EXPIRES_AT = Some x \<and> x \<noteq> [] \<and>
    parseInt x = Some expiry \<and> expiry \<le> clock en (ticks st) \<longrightarrow>
      isAuthenticated n en cfg st =
        (case refreshAccessToken n en cfg (st\<lparr>ticks := Suc (ticks st)\<rparr>) of
           (Resolved tokens, st') \<Rightarrow> (Resolved True, st')
         | (Rejected error, st') \<Rightarrow> (Resolved False, st')
         | (Unsettled, st') \<Rightarrow> (Unsettled, st')) \<and>
      (\<not> truthy (getRefreshToken st) \<longrightarrow>
         fst (isAuthenticated n en cfg st) = Resolved False \<and>
         sent (snd (isAuthenticated n en cfg st)) = sent st)) \<and>
   (truthy (getAccessToken st) \<and> \<not> truthy (getItem st EXPIRES_AT) \<longrightarrow>
      isAuthenticated n en cfg st = (Resolved True, st)) \<and>
   (truthy (getAccessToken st) \<and> getItem st EXPIRES_AT = Some x \<and> x \<noteq> [] \<and>
    parseInt x = Some expiry \<and> clock en (ticks st) < expiry \<longrightarrow>
      isAuthenticated n en cfg st = (Resolved True, st\<lparr>ticks := Suc (ticks st)\<rparr>))"
  using isAuthenticated_no_token [of st n en cfg] isAuthenticated_no_expiry [of st n en cfg]
    isAuthenticated_future [of st x expiry en n cfg]
    isAuthenticated_expired [of st x expiry en n cfg]
    isAuthenticated_expired_no_refresh_token [of st x expiry en n cfg]
  by blast

theorem isAuthenticated_contract_witness:
  "\<not> truthy (getAccessToken pending_client) \<and>
   isAuthenticated 0 demo_env demo_config pending_client = (Resolved False, pending_client) \<and>
   truthy (getAccessToken hasty_client) \<and> \<not> truthy (getItem hasty_client EXPIRES_AT) \<and>
   isAuthenticated 0 demo_env demo_config hasty_client = (Resolved True, hasty_client) \<and>
   truthy (getAccessToken expired_client) \<and>
   getItem expired_client EXPIRES_AT = Some (toString 1699999990000) \<and>
   parseInt (toString 1699999990000) = Some 1699999990000 \<and>
   1699999990000 \<le> clock demo_env (ticks expired_client) \<and>
   \<not> truthy (getRefreshToken expired_client) \<and>
   fst (isAuthenticated 0 demo_env demo_config expired_client) = Resolved False \<and>
   clock demo_env (ticks (storeTokens demo_env demo_tokens pending_client)) < 1700003600000 \<and>
   fst (isAuthenticated 0 demo_env demo_config (storeTokens demo_env demo_tokens pending_client)) =
     Resolved True"
proof -
  let ?fresh = "storeTokens demo_env demo_tokens pending_client"
  have a: "\<not> truthy (getAccessToken pending_client)"
    by (simp add: truthy_def getAccessToken_def getItem_def pending_client_def)
  have b: "truthy (getAccessToken hasty_client)" "\<not> truthy (getItem hasty_client EXPIRES_AT)"
    by (simp_all add: truthy_def getAccessToken_def getItem_def hasty_client_def)
  have c: "truthy (getAccessToken expired_client)"
    "getItem expired_client EXPIRES_AT = Some (toString 1699999990000)"
    "toString 1699999990000 \<noteq> []"
    "parseInt (toString 1699999990000) = Some 1699999990000"
    "1699999990000 \<le> clock demo_env (ticks expired_client)"
    "\<not> truthy (getRefreshToken expired_client)"
    by (simp_all add: truthy_def getAccessToken_def getRefreshToken_def getItem_def
          expired_client_def toString_not_Nil parseInt_toString demo_env_def)
  have d: "truthy (getAccessToken ?fresh)"
    "getItem ?fresh EXPIRES_AT = Some (toString 1700003600000)"
    "toString 1700003600000 \<noteq> []"
    "parseInt (toString 1700003600000) = Some 1700003600000"
    "clock demo_env (ticks ?fresh) < 1700003600000"
    by (simp_all add: truthy_def getAccessToken_def getItem_def storeTokens_storage
          storeTokens_frame toString_not_Nil parseInt_toString demo_env_def demo_tokens_def
          pending_client_def expiresAt_text_def safe_integer_def)
  have w1: "isAuthenticated 0 demo_env demo_config pending_client = (Resolved False, pending_client)"
    using a isAuthenticated_contract [where st = pending_client and n = 0 and en = demo_env
        and cfg = demo_config] by blast
  have w2: "isAuthenticated 0 demo_env demo_config hasty_client = (Resolved True, hasty_client)"
    using b isAuthenticated_contract [where st = hasty_client and n = 0 and en = demo_env
        and cfg = demo_config] by blast
  have w3: "fst (isAuthenticated 0 demo_env demo_config expired_client) = Resolved False"
    using c isAuthenticated_contract [where st = expired_client and n = 0 and en = demo_env
        and cfg = demo_config and x = "toString 1699999990000" and expiry = 1699999990000]
    by blast
  have "isAuthenticated 0 demo_env demo_config ?fresh =
          (Resolved True, ?fresh\<lparr>ticks := Suc (ticks ?fresh)\<rparr>)"
    using d isAuthenticated_contract [where st = ?fresh and n = 0 and en = demo_env
        and cfg = demo_config and x = "toString 1700003600000" and expiry = 1700003600000]
    by blast
  then have w4: "fst (isAuthenticated 0 demo_env demo_config ?fresh) = Resolved True" by simp
  show ?thesis
    using a b c d w1 w2 w3 w4 by simp
qed


section \<open>The cached profile\<close>

lemma http_sends_first:
  assumes r: "\<And>s. grows s (snd (refresh s))"
  shows "\<exists>rest. sent (snd (http refresh server config st)) =
           sent st @ requestInterceptor st config # rest"
  using http_continues [OF r, of st config server]
  by (auto simp add: grows_def prefix_def)



lemma handleError_idem:
  "handleError e st = (e', st') \<Longrightarrow> handleError e' st' = (e', st')"
  by (auto simp add: handleError_def Let_def split: js_error.splits option.splits if_splits)

lemma rethrow_idem:
  "rethrow e st = (Rejected e', st') \<Longrightarrow> rethrow e' st' = (Rejected e', st')"
  using handleError_idem [of e st e' st']
  by (auto simp add: rethrow_def split: prod.splits)




lemma rethrow_snd:
  "storage (snd (rethrow e st)) = storage st"
  "sent (snd (rethrow e st)) = sent st"
  "ticks (snd (rethrow e st)) = ticks st"
  "lastRefreshAttempt (snd (rethrow e st)) = lastRefreshAttempt st"
  using handleError_frame [of e st] by (auto simp add: rethrow_def split: prod.splits)














section \<open>The PKCE challenge\<close>

text \<open>
  The challenge is a function of the verifier, the method and the platform's digest
  alone: no state of the client and no random draw enters it. With \<^verbatim>\<open>plain\<close> it is the
  verifier; with \<^verbatim>\<open>S256\<close> it is the digest in the URL-safe alphabet, without padding.
\<close>

lemma generateCodeChallenge_plain: "generateCodeChallenge en verifier plain = verifier"
  by (simp add: generateCodeChallenge_def)

lemma base64UrlEncode_alphabet:
  "c \<in> set (base64UrlEncode str) \<Longrightarrow> c \<noteq> CHR ''='' \<and> c \<noteq> CHR ''+'' \<and> c \<noteq> CHR ''/''"
  by (auto simp add: base64UrlEncode_def)

lemma base64UrlEncode_length:
  "length (base64UrlEncode str) = length (filter (\<lambda>c. c \<noteq> CHR ''='') str)"
proof -
  have "filter (\<lambda>c. c \<noteq> CHR ''='')
          (map (\<lambda>c. if c = CHR ''/'' then CHR ''_'' else c)
             (map (\<lambda>c. if c = CHR ''+'' then CHR ''-'' else c) str)) =
        map (\<lambda>c. if c = CHR ''/'' then CHR ''_'' else c)
          (map (\<lambda>c. if c = CHR ''+'' then CHR ''-'' else c) (filter (\<lambda>c. c \<noteq> CHR ''='') str))"
    by (induction str) auto
  then show ?thesis by (simp add: base64UrlEncode_def)
qed

lemma generateCodeVerifier_length: "length (fst (generateCodeVerifier en len st)) = len"
  by (simp add: generateCodeVerifier_def)

lemma generateCodeVerifier_charset:
  "c \<in> set (fst (generateCodeVerifier en len st)) \<Longrightarrow> c \<in> set charset"
proof -
  have "0 < length charset" by (simp add: charset_def)
  then have "\<And>k. charset ! (k mod length charset) \<in> set charset" by simp
  then show "c \<in> set (fst (generateCodeVerifier en len st)) \<Longrightarrow> c \<in> set charset"
    by (auto simp add: generateCodeVerifier_def)
qed

text \<open>
  A challenge of another length than the verifier is another string: so it is for the
  128 characters of a generated verifier against the 43 characters that remain of the
  Base64 form of a 32-byte digest.
\<close>

lemma generatePKCEParams_differs:
  assumes "length (filter (\<lambda>c. c \<noteq> CHR ''='') (digestSHA256 en (fst (generateCodeVerifier en 128 st)))) = 43"
  shows "codeChallenge (fst (generatePKCEParams en S256 st)) \<noteq>
         codeVerifier (fst (generatePKCEParams en S256 st))"
proof -
  let ?v = "fst (generateCodeVerifier en 128 st)"
  have "length (generateCodeChallenge en ?v S256) = 43"
    using assms by (simp add: generateCodeChallenge_def base64UrlEncode_length)
  moreover have "length ?v = 128" by (rule generateCodeVerifier_length)
  ultimately have "generateCodeChallenge en ?v S256 \<noteq> ?v" by auto
  then show ?thesis by (simp add: generatePKCEParams_def case_prod_beta)
qed


section \<open>The bound on nested refreshes\<close>

text \<open>
  A call that has settled within a bound settles the same way within every larger one:
  the bound only cuts off runs that nest deeper.
\<close>

lemma http_more:
  assumes fg: "\<And>s. fst (f s) \<noteq> Unsettled \<Longrightarrow> g s = f s"
    and settled: "fst (http f server config st) \<noteq> Unsettled"
  shows "http g server config st = http f server config st"
proof -
  let ?c1 = "requestInterceptor st config"
  let ?st1 = "st\<lparr>sent := sent st @ [?c1]\<rparr>"
  let ?rep = "server (length (sent st)) ?c1"
  have d1: "dispatch server config st = (?rep, ?c1, ?st1)"
    by (simp add: dispatch_def Let_def)
  show ?thesis
  proof (cases ?rep)
    case (Fulfilled d)
    with d1 show ?thesis by (simp add: http_def)
  next
    case (Failed err)
    show ?thesis
    proof (cases "map_option fst (ax_response err) = Some 401 \<and> \<not> retry ?c1")
      case False
      with d1 Failed show ?thesis by (auto simp add: http_def)
    next
      case True
      have "fst (f ?st1) \<noteq> Unsettled"
        using settled d1 Failed True
        by (cases "f ?st1"; cases "fst (f ?st1)") (auto simp add: http_def)
      then have "g ?st1 = f ?st1" by (rule fg)
      with d1 Failed True show ?thesis by (simp add: http_def)
    qed
  qed
qed

lemma refreshAccessToken_body_more:
  assumes fg: "\<And>s. fst (f s) \<noteq> Unsettled \<Longrightarrow> g s = f s"
    and settled: "fst (refreshAccessToken_body f en cfg st) \<noteq> Unsettled"
  shows "refreshAccessToken_body g en cfg st = refreshAccessToken_body f en cfg st"
proof -
  let ?st1 = "st\<lparr>ticks := Suc (ticks st), lastRefreshAttempt := clock en (ticks st)\<rparr>"
  let ?req = "refresh_request cfg (or_else (getRefreshToken ?st1) [])"
  show ?thesis
  proof (cases "\<not> clock en (ticks st) - lastRefreshAttempt st < REFRESH_COOLDOWN \<and>
                truthy (getRefreshToken ?st1)")
    case False
    then show ?thesis
      by (auto simp add: refreshAccessToken_body_def dateNow_def Let_def)
  next
    case True
    have "fst (http f (token_endpoint en) ?req ?st1) \<noteq> Unsettled"
      using settled True
      by (cases "http f (token_endpoint en) ?req ?st1";
          cases "fst (http f (token_endpoint en) ?req ?st1)")
         (auto simp add: refreshAccessToken_body_def dateNow_def Let_def)
    then have "http g (token_endpoint en) ?req ?st1 = http f (token_endpoint en) ?req ?st1"
      using http_more [of f g "token_endpoint en" ?req ?st1] fg by blast
    with True show ?thesis
      by (simp add: refreshAccessToken_body_def dateNow_def Let_def)
  qed
qed

lemma refreshAccessToken_Suc:
  "fst (refreshAccessToken n en cfg st) \<noteq> Unsettled \<Longrightarrow>
     refreshAccessToken (Suc n) en cfg st = refreshAccessToken n en cfg st"
proof (induction n arbitrary: st)
  case 0
  then show ?case
    using refreshAccessToken_body_more [of "\<lambda>s. (Unsettled, s)" "refreshAccessToken 0 en cfg" en cfg st]
    by simp
next
  case (Suc n)
  then show ?case
    using refreshAccessToken_body_more [of "refreshAccessToken n en cfg"
        "refreshAccessToken (Suc n) en cfg" en cfg st]
    by simp
qed

lemma refreshAccessToken_more:
  "fst (refreshAccessToken n en cfg st) \<noteq> Unsettled \<Longrightarrow>
     refreshAccessToken (n + k) en cfg st = refreshAccessToken n en cfg st"
proof (induction k)
  case 0
  then show ?case by simp
next
  case (Suc k)
  then have "fst (refreshAccessToken (n + k) en cfg st) \<noteq> Unsettled" by simp
  then have "refreshAccessToken (Suc (n + k)) en cfg st = refreshAccessToken (n + k) en cfg st"
    by (rule refreshAccessToken_Suc)
  with Suc show ?case by simp
qed

text \<open>
  Against a token endpoint that never answers 401 the interceptor starts no inner
  refresh, and every refresh settles.
\<close>

lemma http_settles:
  assumes "\<And>k r err. server k r = Failed err \<Longrightarrow> map_option fst (ax_response err) \<noteq> Some 401"
  shows "fst (http refresh server config st) \<noteq> Unsettled"
proof -
  let ?c1 = "requestInterceptor st config"
  let ?st1 = "st\<lparr>sent := sent st @ [?c1]\<rparr>"
  let ?rep = "server (length (sent st)) ?c1"
  have d1: "dispatch server config st = (?rep, ?c1, ?st1)"
    by (simp add: dispatch_def Let_def)
  show ?thesis
  proof (cases ?rep)
    case (Fulfilled d)
    with d1 show ?thesis by (simp add: http_def)
  next
    case (Failed err)
    then have "map_option fst (ax_response err) \<noteq> Some 401" using assms by blast
    with d1 Failed show ?thesis
      by (auto simp add: http_def rethrow_def split: prod.splits)
  qed
qed

lemma refreshAccessToken_settles:
  assumes "\<And>k r err. token_endpoint en k r = Failed err \<Longrightarrow>
             map_option fst (ax_response err) \<noteq> Some 401"
  shows "fst (refreshAccessToken n en cfg st) \<noteq> Unsettled"
proof -
  have body: "\<And>nested. fst (refreshAccessToken_body nested en cfg st) \<noteq> Unsettled"
  proof -
    fix nested
    let ?st1 = "st\<lparr>ticks := Suc (ticks st), lastRefreshAttempt := clock en (ticks st)\<rparr>"
    let ?h = "http nested (token_endpoint en) (refresh_request cfg (or_else (getRefreshToken ?st1) [])) ?st1"
    have "fst ?h \<noteq> Unsettled" using http_settles [of "token_endpoint en"] assms by blast
    then show "fst (refreshAccessToken_body nested en cfg st) \<noteq> Unsettled"
      by (cases ?h; cases "fst ?h")
         (auto simp add: refreshAccessToken_body_def dateNow_def Let_def refreshFailed_def
            rethrow_def split: prod.splits)
  qed
  show ?thesis by (cases n) (simp_all add: body)
qed


lemma http_settles_with:
  assumes "fst (refresh (st\<lparr>sent := sent st @ [requestInterceptor st config]\<rparr>)) \<noteq> Unsettled"
  shows "fst (http refresh server config st) \<noteq> Unsettled"
proof -
  let ?c1 = "requestInterceptor st config"
  let ?st1 = "st\<lparr>sent := sent st @ [?c1]\<rparr>"
  let ?rep = "server (length (sent st)) ?c1"
  have d1: "dispatch server config st = (?rep, ?c1, ?st1)"
    by (simp add: dispatch_def Let_def)
  show ?thesis
  proof (cases ?rep)
    case (Fulfilled d)
    with d1 show ?thesis by (simp add: http_def)
  next
    case (Failed err)
    with d1 assms show ?thesis
      by (cases "refresh ?st1"; cases "fst (refresh ?st1)")
         (auto simp add: http_def rethrow_def split: prod.splits http_reply.splits)
  qed
qed

text \<open>
  The cooldown breaks the loop: when two consecutive readings of the clock are less than
  the cooldown apart, the refresh the interceptor starts inside a refresh is turned away
  at the gate, and one level of nesting is all there is.
\<close>

lemma refreshAccessToken_loop_broken:
  assumes "\<And>t. clock en (Suc t) - clock en t < REFRESH_COOLDOWN"
  shows "fst (refreshAccessToken (Suc n) en cfg st) \<noteq> Unsettled"
proof -
  let ?st1 = "st\<lparr>ticks := Suc (ticks st), lastRefreshAttempt := clock en (ticks st)\<rparr>"
  let ?req = "refresh_request cfg (or_else (getRefreshToken ?st1) [])"
  let ?st2 = "?st1\<lparr>sent := sent ?st1 @ [requestInterceptor ?st1 ?req]\<rparr>"
  have "clock en (ticks ?st2) - lastRefreshAttempt ?st2 < REFRESH_COOLDOWN"
    using assms [of "ticks st"] by simp
  then have "fst (refreshAccessToken n en cfg ?st2) = Rejected rate_limited"
    using refresh_gate_closed [of en ?st2 n cfg] by simp
  then have "fst (refreshAccessToken n en cfg ?st2) \<noteq> Unsettled" by simp
  then have h: "fst (http (refreshAccessToken n en cfg) (token_endpoint en) ?req ?st1) \<noteq> Unsettled"
    by (rule http_settles_with)
  show ?thesis
    using h
    by (cases "http (refreshAccessToken n en cfg) (token_endpoint en) ?req ?st1";
        cases "fst (http (refreshAccessToken n en cfg) (token_endpoint en) ?req ?st1)")
       (auto simp add: refreshAccessToken_body_def dateNow_def Let_def refreshFailed_def
          rethrow_def split: prod.splits)
qed

section \<open>What a callback and a login do otherwise\<close>

text \<open>
  With the stored state the callback does go to the token endpoint: the code exchange is
  the first request it sends.
\<close>

lemma handleCallback_sends:
  assumes "getItem st OAUTH_STATE = Some state"
  shows "\<exists>rest. sent (snd (handleCallback n en cfg code state st)) =
           sent st @ exchange_request cfg st code # rest"
proof -
  let ?h = "http (refreshAccessToken n en cfg) (token_endpoint en) (exchange_request cfg st code) st"
  obtain out st1 where h: "?h = (out, st1)" by (cases ?h) auto
  obtain rest where r: "sent st1 = sent st @ exchange_request cfg st code # rest"
    using http_sends_first [of "refreshAccessToken n en cfg" "token_endpoint en"
        "exchange_request cfg st code" st] h
    by (auto simp add: grows_refreshAccessToken exchange_request_unprotected)
  have "grows st1 (snd (handleCallback n en cfg code state st))"
  proof (cases out)
    case (Resolved tokens)
    let ?st4 = "removeItem PKCE_VERIFIER (removeItem OAUTH_STATE (storeTokens en tokens st1))"
    have g4: "grows st1 ?st4" by (simp add: grows_storeTokens)
    have g5: "grows st1 (snd (getCurrentUser n en cfg False ?st4))"
      using g4 grows_getCurrentUser [of ?st4] by (blast intro: grows_trans)
    show ?thesis
      using assms h Resolved g5
      by (cases "getCurrentUser n en cfg False ?st4"; cases "fst (getCurrentUser n en cfg False ?st4)")
         (auto simp add: handleCallback_def Let_def grows_emit grows_rethrow)
  next
    case (Rejected e)
    with assms h show ?thesis by (simp add: handleCallback_def grows_rethrow)
  next
    case Unsettled
    with assms h show ?thesis by (simp add: handleCallback_def)
  qed
  then obtain more where "sent (snd (handleCallback n en cfg code state st)) = sent st1 @ more"
    by (auto simp add: grows_def prefix_def)
  with r show ?thesis by simp
qed

text \<open>
  A callback URL with an \<^verbatim>\<open>error\<close> parameter, without code or state, or with a state
  other than the stored one ends the login in an \<^verbatim>\<open>AuthenticationError\<close>, the pending
  transaction removed.
\<close>

lemma login_result_rejections:
  assumes "parseDeepLinkUrl en u = Inr p"
    and "truthy (dl_error p) \<or> \<not> truthy (dl_code p) \<or> \<not> truthy (dl_state p) \<or>
         dl_state p \<noteq> getItem st OAUTH_STATE"
  shows "\<exists>m. login_result n en cfg (success u) st =
           (Rejected (SdkError AuthenticationError m None), cleanupOAuthState st)"
  using assms by (auto simp add: login_result_def)


section \<open>The replay after a 401\<close>

text \<open>
  The response interceptor is another path to the \<^verbatim>\<open>Authorization\<close> header. After a 401
  on a request not yet retried and a refresh that succeeded, it sets the header to the
  stored token on the request it replays, with no test of the URL against the
  allow-list: the replayed request goes out to the URL of the original one and carries
  the token.
\<close>

lemma requestInterceptor_keeps:
  "url (requestInterceptor st config) = url config \<and>
   retry (requestInterceptor st config) = retry config"
  by (simp add: requestInterceptor_def bearer_def split: option.splits)

lemma http_replay_carries_token:
  assumes "server (length (sent st)) (requestInterceptor st config) = Failed err"
    and "map_option fst (ax_response err) = Some 401" and "\<not> retry config"
    and "refresh (st\<lparr>sent := sent st @ [requestInterceptor st config]\<rparr>) = (Resolved tokens, st2)"
    and "getAccessToken st2 = Some t" and "t \<noteq> []"
  shows "\<exists>r. sent (snd (http refresh server config st)) = sent st2 @ [r] \<and>
             url r = url config \<and> retry r \<and>
             headers r ''Authorization'' = Some (''Bearer '' @ t)"
proof -
  let ?q = "bearer (Some t) ((requestInterceptor st config)\<lparr>retry := True\<rparr>)"
  let ?r = "requestInterceptor st2 ?q"
  have q: "url ?q = url config" "retry ?q" "headers ?q ''Authorization'' = Some (''Bearer '' @ t)"
    using assms(6) by (simp_all add: bearer_def requestInterceptor_keeps)
  have r: "url ?r = url config" "retry ?r" "headers ?r ''Authorization'' = Some (''Bearer '' @ t)"
  proof -
    show "url ?r = url config" "retry ?r"
      using q by (simp_all add: requestInterceptor_keeps)
    show "headers ?r ''Authorization'' = Some (''Bearer '' @ t)"
      using assms(5,6) by (simp add: requestInterceptor_def bearer_def)
  qed
  have "sent (snd (http refresh server config st)) = sent st2 @ [?r]"
    using assms
    by (cases "server (length (sent st2)) ?r")
       (simp_all add: http_def dispatch_def Let_def requestInterceptor_keeps rethrow_snd)
  with r show ?thesis by blast
qed

text \<open>
  The code exchange of a callback, refused once with a 401 while a refresh token is
  stored: the refresh goes through, and the replayed exchange carries the new token to
  the token endpoint.
\<close>

lemma replay_carries_token:
  "map (\<lambda>r. (url r, retry r, headers r ''Authorization''))
     (sent (snd (http (refreshAccessToken 0 flaky_env demo_config) (token_endpoint flaky_env)
              (exchange_request demo_config returning_client ''code-1'') returning_client))) =
   [(Some TOKEN, False, None), (Some TOKEN, False, None), (Some TOKEN, True, Some ''Bearer NEW'')]"
proof -
  let ?x = "exchange_request demo_config returning_client ''code-1''"
  let ?st1 = "returning_client\<lparr>sent := [?x]\<rparr>"
  have bare: "headers ?x ''Authorization'' = None" "url ?x = Some TOKEN" "retry ?x = False"
    by (simp_all add: exchange_request_def mkRequest_def demo_config_def map_add_def)
  have bare2: "headers (refresh_request demo_config ''R'') ''Authorization'' = None"
    "url (refresh_request demo_config ''R'') = Some TOKEN"
    "retry (refresh_request demo_config ''R'') = False"
    by (simp_all add: refresh_request_def mkRequest_def demo_config_def map_add_def)
  have gate: "\<not> clock flaky_env (ticks ?st1) - lastRefreshAttempt ?st1 < REFRESH_COOLDOWN"
    "getRefreshToken ?st1 = Some ''R''" "''R'' \<noteq> []"
    "token_endpoint flaky_env (length (sent ?st1)) (refresh_request demo_config ''R'') =
       Fulfilled (demo_tokens\<lparr>access_token := ''NEW''\<rparr>)"
    by (simp_all add: flaky_env_def demo_env_def returning_client_def REFRESH_COOLDOWN_def
          getRefreshToken_def getItem_def)
  let ?st1' = "?st1\<lparr>ticks := Suc (ticks ?st1), lastRefreshAttempt := clock flaky_env (ticks ?st1)\<rparr>"
  let ?st2 = "emit (token_refreshed (demo_tokens\<lparr>access_token := ''NEW''\<rparr>))
                (storeTokens flaky_env (demo_tokens\<lparr>access_token := ''NEW''\<rparr>)
                   (?st1'\<lparr>sent := sent ?st1' @ [refresh_request demo_config ''R'']\<rparr>))"
  have r: "refreshAccessToken 0 flaky_env demo_config ?st1 =
             (Resolved (demo_tokens\<lparr>access_token := ''NEW''\<rparr>), ?st2)"
    using gate
      http_fulfilled [of "token_endpoint flaky_env" ?st1' "refresh_request demo_config ''R''"
        "demo_tokens\<lparr>access_token := ''NEW''\<rparr>" "\<lambda>st. (Unsettled, st)"]
    by (simp add: refreshAccessToken_body_def dateNow_def Let_def truthy_def or_else_def
          refresh_request_unprotected getRefreshToken_def getItem_def)
  have tok: "getAccessToken ?st2 = Some ''NEW''"
    by (simp add: getAccessToken_def getItem_def emit_def storeTokens_storage demo_tokens_def)
  have s2: "sent ?st2 = [?x, refresh_request demo_config ''R'']"
    by (simp add: emit_def storeTokens_frame)
  have first: "token_endpoint flaky_env (length (sent returning_client)) ?x = Failed unauthorized"
    by (simp add: flaky_env_def returning_client_def)
  have later: "\<And>k q. k \<noteq> 0 \<Longrightarrow> token_endpoint flaky_env k q =
                  Fulfilled (demo_tokens\<lparr>access_token := ''NEW''\<rparr>)"
    by (simp add: flaky_env_def)
  have second: "\<And>q. token_endpoint flaky_env (length (sent ?st2)) q =
                  Fulfilled (demo_tokens\<lparr>access_token := ''NEW''\<rparr>)"
    using later [of "length (sent ?st2)"] s2 by simp
  have nothing_sent: "sent returning_client = []" by (simp add: returning_client_def)
  have h: "snd (http (refreshAccessToken 0 flaky_env demo_config) (token_endpoint flaky_env) ?x
             returning_client) =
           ?st2\<lparr>sent := sent ?st2 @ [bearer (Some ''NEW'') (?x\<lparr>retry := True\<rparr>)]\<rparr>"
    using first second r tok bare
    by (simp add: http_def dispatch_def exchange_request_unprotected Let_def nothing_sent
          unauthorized_def requestInterceptor_def bearer_def is_protected_TOKEN)
  show ?thesis
    unfolding h by (simp add: emit_def storeTokens_frame bare bare2 bearer_def)
qed

lemma handleCallback_continues:
  assumes "getItem st OAUTH_STATE = Some state"
  shows "grows (snd (http (refreshAccessToken n en cfg) (token_endpoint en)
                      (exchange_request cfg st code) st))
               (snd (handleCallback n en cfg code state st))"
proof -
  let ?h = "http (refreshAccessToken n en cfg) (token_endpoint en) (exchange_request cfg st code) st"
  obtain out st1 where h: "?h = (out, st1)" by (cases ?h) auto
  have "grows st1 (snd (handleCallback n en cfg code state st))"
  proof (cases out)
    case (Resolved tokens)
    let ?st4 = "removeItem PKCE_VERIFIER (removeItem OAUTH_STATE (storeTokens en tokens st1))"
    have g4: "grows st1 ?st4" by (simp add: grows_storeTokens)
    have g5: "grows st1 (snd (getCurrentUser n en cfg False ?st4))"
      using g4 grows_getCurrentUser [of ?st4] by (blast intro: grows_trans)
    show ?thesis
      using assms h Resolved g5
      by (cases "getCurrentUser n en cfg False ?st4"; cases "fst (getCurrentUser n en cfg False ?st4)")
         (auto simp add: handleCallback_def Let_def grows_emit grows_rethrow)
  next
    case (Rejected e)
    with assms h show ?thesis by (simp add: handleCallback_def grows_rethrow)
  next
    case Unsettled
    with assms h show ?thesis by (simp add: handleCallback_def)
  qed
  with h show ?thesis by simp
qed

text \<open>
  A URL on another host that contains an allow-listed path is on the list as well, the
  test being \<^verbatim>\<open>includes\<close>. The client itself only ever requests the fixed endpoints.
\<close>

lemma is_protected_substring: "is_protected (Some (''https://other.example'' @ PROFILE))"
  by (simp add: is_protected_def protectedEndpoints_def str_includes_def
        sublist_appendI [where ps = "''https://other.example''" and ss = "[]", simplified])

text \<open>
  Claim C5. The claim has every request to an endpoint off the allow-list go out without
  an \<^verbatim>\<open>Authorization\<close> header, whatever token is stored. The code does not keep to
  that on the replay after a 401. A returning user, whose tokens are still in storage,
  comes back from the browser and \<^verbatim>\<open>handleCallback\<close> posts the code to the token
  endpoint, which is not on the allow-list; the server answers that first request with
  a 401 and the refresh that the response interceptor starts with fresh tokens. Three
  requests then go to the token endpoint: the exchange and the refresh without the
  header, although an access token is stored, and the replayed exchange with
  \<^verbatim>\<open>Authorization: Bearer NEW\<close>, the access token the refresh has just stored.
\<close>

theorem handleCallback_replay_leaks_token:
  "\<not> is_protected (Some TOKEN) \<and>
   getItem returning_client OAUTH_STATE = Some ''st-4711'' \<and>
   getRefreshToken returning_client = Some ''R'' \<and>
   getAccessToken returning_client = Some ''A'' \<and>
   (\<exists>rest.
      map (\<lambda>r. (url r, retry r, headers r ''Authorization''))
        (sent (snd (handleCallback 0 flaky_env demo_config ''code-1'' ''st-4711'' returning_client))) =
      [(Some TOKEN, False, None), (Some TOKEN, False, None),
       (Some TOKEN, True, Some ''Bearer NEW'')] @ rest)"
proof -
  have s: "getItem returning_client OAUTH_STATE = Some ''st-4711''"
    "getRefreshToken returning_client = Some ''R''" "getAccessToken returning_client = Some ''A''"
    by (simp_all add: getItem_def getRefreshToken_def getAccessToken_def returning_client_def)
  let ?h = "http (refreshAccessToken 0 flaky_env demo_config) (token_endpoint flaky_env)
              (exchange_request demo_config returning_client ''code-1'') returning_client"
  obtain more where
    "sent (snd (handleCallback 0 flaky_env demo_config ''code-1'' ''st-4711'' returning_client)) =
       sent (snd ?h) @ more"
    using handleCallback_continues [OF s(1), of 0 flaky_env demo_config "''code-1''"]
    by (auto simp add: grows_def prefix_def)
  then have
    "map (\<lambda>r. (url r, retry r, headers r ''Authorization''))
       (sent (snd (handleCallback 0 flaky_env demo_config ''code-1'' ''st-4711'' returning_client))) =
     [(Some TOKEN, False, None), (Some TOKEN, False, None),
      (Some TOKEN, True, Some ''Bearer NEW'')] @
     map (\<lambda>r. (url r, retry r, headers r ''Authorization'')) more"
    using replay_carries_token by simp
  then show ?thesis using s is_protected_TOKEN by blast
qed


section \<open>Which keys a call writes\<close>

text \<open>
  Refreshing and fetching the profile write the token keys and the cache keys and no
  other: a key outside \<open>session_keys\<close> keeps its value across them, however the
  calls nest.
\<close>

lemma dispatch_storage: "storage (snd (snd (dispatch server config st))) = storage st"
  by (simp add: dispatch_def Let_def)

lemma http_storage:
  assumes r: "\<And>s. storage (snd (refresh s)) k = storage s k"
  shows "storage (snd (http refresh server config st)) k = storage st k"
proof -
  let ?c1 = "requestInterceptor st config"
  let ?st1 = "st\<lparr>sent := sent st @ [?c1]\<rparr>"
  let ?rep = "server (length (sent st)) ?c1"
  have d1: "dispatch server config st = (?rep, ?c1, ?st1)"
    by (simp add: dispatch_def Let_def)
  show ?thesis
  proof (cases ?rep)
    case (Fulfilled d)
    with d1 show ?thesis by (simp add: http_def)
  next
    case (Failed err)
    show ?thesis
    proof (cases "map_option fst (ax_response err) = Some 401 \<and> \<not> retry ?c1")
      case False
      with d1 Failed show ?thesis by (auto simp add: http_def rethrow_snd)
    next
      case True
      obtain out st2 where rf: "refresh ?st1 = (out, st2)" by (cases "refresh ?st1") auto
      have s2: "storage st2 k = storage st k" using r [of ?st1] rf by simp
      let ?c2 = "bearer (getAccessToken st2) (?c1\<lparr>retry := True\<rparr>)"
      have s3: "storage (snd (snd (dispatch server ?c2 st2))) = storage st2"
        by (rule dispatch_storage)
      show ?thesis
        using d1 Failed True rf s2 s3
        by (cases out; cases "dispatch server ?c2 st2"; cases "fst (dispatch server ?c2 st2)")
           (auto simp add: http_def emit_def rethrow_snd)
    qed
  qed
qed

lemma storeTokens_other:
  "k \<notin> set session_keys \<Longrightarrow> storage (storeTokens en tokens st) k = storage st k"
  by (simp add: storeTokens_storage session_keys_def)

lemma refreshAccessToken_body_other:
  assumes k: "k \<notin> set session_keys"
    and r: "\<And>s. storage (snd (nested s)) k = storage s k"
  shows "storage (snd (refreshAccessToken_body nested en cfg st)) k = storage st k"
proof -
  let ?st1 = "st\<lparr>ticks := Suc (ticks st), lastRefreshAttempt := clock en (ticks st)\<rparr>"
  let ?h = "http nested (token_endpoint en) (refresh_request cfg (or_else (getRefreshToken ?st1) [])) ?st1"
  have h: "storage (snd ?h) k = storage st k"
    using http_storage [of nested k "token_endpoint en" _ ?st1] r by simp
  show ?thesis
    using h k
    by (cases ?h; cases "fst ?h")
       (auto simp add: refreshAccessToken_body_def dateNow_def Let_def refreshFailed_def
          rethrow_snd emit_def storeTokens_other)
qed

lemma refreshAccessToken_other:
  "k \<notin> set session_keys \<Longrightarrow> storage (snd (refreshAccessToken n en cfg st)) k = storage st k"
proof (induction n arbitrary: st)
  case 0
  then show ?case by (simp add: refreshAccessToken_body_other)
next
  case (Suc n)
  then show ?case by (simp add: refreshAccessToken_body_other)
qed

lemma fetchUser_other:
  assumes "k \<notin> set session_keys"
  shows "storage (snd (fetchUser n en cfg st)) k = storage st k"
proof -
  let ?h = "http (refreshAccessToken n en cfg) (userinfo_endpoint en) (userinfo_request cfg) st"
  have h: "storage (snd ?h) k = storage st k"
    using http_storage [of "refreshAccessToken n en cfg" k] refreshAccessToken_other [OF assms]
    by simp
  show ?thesis
    using h assms
    by (cases ?h; cases "fst ?h")
       (auto simp add: fetchUser_def Let_def dateNow_def setItem_def rethrow_snd session_keys_def)
qed

lemma getCurrentUser_other:
  assumes "k \<notin> set session_keys"
  shows "storage (snd (getCurrentUser n en cfg force st)) k = storage st k"
  using fetchUser_other [OF assms, of n en cfg st]
    fetchUser_other [OF assms, of n en cfg "st\<lparr>ticks := Suc (ticks st)\<rparr>"]
  by (auto simp add: getCurrentUser_def Let_def dateNow_def rethrow_snd split: option.splits)

text \<open>
  So a callback that succeeds has consumed the pending transaction: it removes both keys
  after storing the tokens, and the profile fetch that follows does not bring them back.
\<close>

lemma handleCallback_consumes:
  assumes "handleCallback n en cfg code state st = (Resolved tokens, st')"
  shows "getItem st' OAUTH_STATE = None \<and> getItem st' PKCE_VERIFIER = None"
proof -
  obtain st1 u st5 where
    g: "getCurrentUser n en cfg False
          (removeItem PKCE_VERIFIER (removeItem OAUTH_STATE (storeTokens en tokens st1))) =
            (Resolved u, st5)"
    and st': "st' = emit (user_logged_in u) st5"
    using handleCallback_resolved_stores [OF assms] by blast
  let ?st4 = "removeItem PKCE_VERIFIER (removeItem OAUTH_STATE (storeTokens en tokens st1))"
  have a: "storage st5 OAUTH_STATE = storage ?st4 OAUTH_STATE"
    using getCurrentUser_other [of OAUTH_STATE n en cfg False ?st4] g
    by (simp add: session_keys_def)
  have b: "storage st5 PKCE_VERIFIER = storage ?st4 PKCE_VERIFIER"
    using getCurrentUser_other [of PKCE_VERIFIER n en cfg False ?st4] g
    by (simp add: session_keys_def)
  show ?thesis
    using a b st' by (simp add: getItem_def emit_def removeItem_def)
qed


end
